theory Spec2Isabelle
  imports Complex_Main
begin

section \<open>Numeric values\<close>

text \<open>
  The arrays of \<^verbatim>\<open>esmlab/statistics.py\<close> hold IEEE doubles. A value is modelled as an
  exact real or one of the three non-finite values; arithmetic follows the IEEE rules for
  the non-finite cases (\<open>1/0 = inf\<close>, \<open>0/0 = nan\<close>, \<open>inf - inf = nan\<close>,
  \<open>sqrt (-1) = nan\<close>). Rounding, overflow, underflow and the sign of zero are not
  modelled: a finite result is the exact real result, and zero counts as \<open>+0\<close>.
\<close>

datatype fval = Fin real | PInf | NInf | NaN

fun isnan :: "fval \<Rightarrow> bool" where
  "isnan NaN = True"
| "isnan _ = False"


fun fneg :: "fval \<Rightarrow> fval" where
  "fneg (Fin a) = Fin (- a)"
| "fneg PInf = NInf"
| "fneg NInf = PInf"
| "fneg NaN = NaN"

fun fadd :: "fval \<Rightarrow> fval \<Rightarrow> fval" where
  "fadd (Fin a) (Fin b) = Fin (a + b)"
| "fadd NaN _ = NaN"
| "fadd _ NaN = NaN"
| "fadd PInf NInf = NaN"
| "fadd NInf PInf = NaN"
| "fadd PInf _ = PInf"
| "fadd _ PInf = PInf"
| "fadd NInf _ = NInf"
| "fadd _ NInf = NInf"

definition fsub :: "fval \<Rightarrow> fval \<Rightarrow> fval" where
  "fsub a b = fadd a (fneg b)"

fun fsign :: "fval \<Rightarrow> real" where
  "fsign (Fin a) = sgn a"
| "fsign PInf = 1"
| "fsign NInf = - 1"
| "fsign NaN = 0"

fun fmul :: "fval \<Rightarrow> fval \<Rightarrow> fval" where
  "fmul (Fin a) (Fin b) = Fin (a * b)"
| "fmul NaN _ = NaN"
| "fmul _ NaN = NaN"
| "fmul a b = (if fsign a * fsign b = 0 then NaN
               else if 0 < fsign a * fsign b then PInf else NInf)"

fun fdiv :: "fval \<Rightarrow> fval \<Rightarrow> fval" where
  "fdiv NaN _ = NaN"
| "fdiv _ NaN = NaN"
| "fdiv (Fin a) (Fin b) =
     (if b = 0 then (if a = 0 then NaN else if 0 < a then PInf else NInf)
      else Fin (a / b))"
| "fdiv (Fin a) _ = Fin 0"
| "fdiv PInf (Fin b) = (if 0 \<le> b then PInf else NInf)"
| "fdiv NInf (Fin b) = (if 0 \<le> b then NInf else PInf)"
| "fdiv _ _ = NaN"

fun fsqrt :: "fval \<Rightarrow> fval" where
  "fsqrt (Fin a) = (if 0 \<le> a then Fin (sqrt a) else NaN)"
| "fsqrt PInf = PInf"
| "fsqrt NInf = NaN"
| "fsqrt NaN = NaN"

text \<open>\<^verbatim>\<open>a ** 2\<close> on a float array squares each element.\<close>

definition fsquare :: "fval \<Rightarrow> fval" where
  "fsquare a = fmul a a"

text \<open>
  A reduction with \<^verbatim>\<open>skipna\<close> (the default of \<^verbatim>\<open>DataArray.sum\<close> on floats) is numpy's
  \<^verbatim>\<open>nansum\<close>: every NaN is replaced by zero and the values are added. The sum of no
  values, or of NaNs only, is \<open>0.0\<close>.
\<close>

fun nan_to_zero :: "fval \<Rightarrow> fval" where
  "nan_to_zero NaN = Fin 0"
| "nan_to_zero v = v"

primrec nansum :: "fval list \<Rightarrow> fval" where
  "nansum [] = Fin 0"
| "nansum (v # vs) = fadd (nan_to_zero v) (nansum vs)"

section \<open>Labelled arrays\<close>

text \<open>
  An \<^verbatim>\<open>xarray.DataArray\<close> without coordinate labels: the axis names, the axis lengths,
  the elements, the name and the metadata. An element is addressed by the position on
  every named axis, so an \<open>index\<close> gives each axis name its position; an array reads
  only the axes it has. Operands of different axes broadcast by axis name, as xarray does.
\<close>

type_synonym index = "string \<Rightarrow> nat"

record 'a DataArray =
  name :: "string option"
  dims :: "string list"
  shape :: "nat list"
  elem :: "index \<Rightarrow> 'a"
  attrs :: "(string \<times> string) list"
  encoding :: "(string \<times> string) list"

definition sizes :: "'a DataArray \<Rightarrow> (string \<times> nat) list" where
  "sizes a = zip (dims a) (shape a)"

definition size_of :: "'a DataArray \<Rightarrow> string \<Rightarrow> nat" where
  "size_of a d = (case map_of (sizes a) d of Some n \<Rightarrow> n | None \<Rightarrow> 1)"

text \<open>All positions along the given axes, the other axes held at the index given.\<close>

fun positions :: "(string \<times> nat) list \<Rightarrow> index \<Rightarrow> index list" where
  "positions [] i = [i]"
| "positions ((d, n) # ds) i = concat (map (\<lambda>k. positions ds (i(d := k))) [0..<n])"

text \<open>
  The exceptions the module can raise. \<open>InvalidDimension\<close> is the \<^verbatim>\<open>ValueError\<close> of
  line 35 with its message; \<open>ShapeMismatch\<close> is the \<^verbatim>\<open>AssertionError\<close> of the two
  \<^verbatim>\<open>assert\<close> statements (lines 42 and 46); \<open>NormalizationError\<close> is the
  \<^verbatim>\<open>AssertionError\<close> of \<^verbatim>\<open>np.testing.assert_allclose\<close> (line 55); \<open>XarrayError\<close> is a
  \<^verbatim>\<open>ValueError\<close> raised inside xarray (an array built with the wrong number of axis
  names, operands whose common axis differs in length, a reduction over an axis the
  array lacks or names twice).
\<close>

datatype error = InvalidDimension string | ShapeMismatch | NormalizationError | XarrayError

definition bindE :: "error + 'a \<Rightarrow> ('a \<Rightarrow> error + 'b) \<Rightarrow> error + 'b" where
  "bindE m f = (case m of Inl e \<Rightarrow> Inl e | Inr v \<Rightarrow> f v)"

text \<open>\<^verbatim>\<open>xr.DataArray(np.ones(shape), dims=names)\<close>.\<close>

definition ones_array :: "nat list \<Rightarrow> string list \<Rightarrow> error + fval DataArray" where
  "ones_array shp ds =
     (if length ds = length shp
      then Inr \<lparr>name = None, dims = ds, shape = shp, elem = (\<lambda>i. Fin 1),
                attrs = [], encoding = []\<rparr>
      else Inl XarrayError)"

text \<open>An elementwise function of one array (\<^verbatim>\<open>notnull\<close>, \<^verbatim>\<open>** 2\<close>, \<^verbatim>\<open>- ddof\<close>,
  \<^verbatim>\<open>np.sqrt\<close>): same axes and name, fresh metadata.\<close>

definition da_map :: "('a \<Rightarrow> 'b) \<Rightarrow> 'a DataArray \<Rightarrow> 'b DataArray" where
  "da_map f a = \<lparr>name = name a, dims = dims a, shape = shape a,
                 elem = (\<lambda>i. f (elem a i)), attrs = [], encoding = []\<rparr>"

definition notnull :: "fval DataArray \<Rightarrow> bool DataArray" where
  "notnull a = da_map (\<lambda>v. \<not> isnan v) a"

text \<open>
  A binary operation of two arrays. The result has the axes of the left operand followed
  by the axes only the right operand has; an axis both have must have one length
  (the operators run under \<^verbatim>\<open>arithmetic_join="exact"\<close>, and arrays without labels are
  never aligned by truncation). The name survives when both operands agree on it;
  attributes and encoding are not carried over.
\<close>

definition conflicting :: "'a DataArray \<Rightarrow> 'b DataArray \<Rightarrow> bool" where
  "conflicting a b = list_ex (\<lambda>(d, n). d \<in> set (dims a) \<and> size_of a d \<noteq> n) (sizes b)"

definition bcast :: "('a \<Rightarrow> 'b \<Rightarrow> 'c) \<Rightarrow> 'a DataArray \<Rightarrow> 'b DataArray \<Rightarrow> error + 'c DataArray" where
  "bcast f a b =
     (if conflicting a b then Inl XarrayError
      else Inr \<lparr>name = (if name a = name b then name a else None),
                dims = dims a @ filter (\<lambda>d. d \<notin> set (dims a)) (dims b),
                shape = shape a @ map snd (filter (\<lambda>(d, n). d \<notin> set (dims a)) (sizes b)),
                elem = (\<lambda>i. f (elem a i) (elem b i)),
                attrs = [], encoding = []\<rparr>)"

text \<open>\<^verbatim>\<open>w.where(cond)\<close>: the value where the condition holds, NaN elsewhere; the
  attributes of \<open>w\<close> are kept.\<close>

definition da_where :: "fval DataArray \<Rightarrow> bool DataArray \<Rightarrow> error + fval DataArray" where
  "da_where w c =
     bindE (bcast (\<lambda>v ok. if ok then v else NaN) w c) (\<lambda>r. Inr (r\<lparr>attrs := attrs w\<rparr>))"

text \<open>\<^verbatim>\<open>a.sum(ds)\<close>: the NaN-skipping sum over the axes \<open>ds\<close>, which are removed.\<close>

definition da_sum :: "fval DataArray \<Rightarrow> string list \<Rightarrow> error + fval DataArray" where
  "da_sum a ds =
     (if distinct ds \<and> set ds \<subseteq> set (dims a)
      then Inr \<lparr>name = name a,
                dims = filter (\<lambda>d. d \<notin> set ds) (dims a),
                shape = map snd (filter (\<lambda>(d, n). d \<notin> set ds) (sizes a)),
                elem = (\<lambda>i. nansum (map (elem a) (positions (map (\<lambda>d. (d, size_of a d)) ds) i))),
                attrs = [], encoding = []\<rparr>
      else Inl XarrayError)"

section \<open>Collaborators outside the sources\<close>

text \<open>
  Modelled from the spec: \<^verbatim>\<open>get_original_attrs\<close> and \<^verbatim>\<open>update_attrs\<close> are imported from
  \<^verbatim>\<open>esmlab.utils.variables\<close>, which is not among the sources. The spec gives their
  interface, \<^verbatim>\<open>get_original_attrs(array) -> (attrs, encoding)\<close> and
  \<^verbatim>\<open>update_attrs(result, attrs, encoding) -> result\<close>, and says that they copy the
  descriptive attributes of the original input onto the result.
\<close>

definition get_original_attrs ::
  "'a DataArray \<Rightarrow> (string \<times> string) list \<times> (string \<times> string) list" where
  "get_original_attrs x = (attrs x, encoding x)"

definition update_attrs ::
  "'a DataArray \<Rightarrow> (string \<times> string) list \<Rightarrow> (string \<times> string) list \<Rightarrow> 'a DataArray" where
  "update_attrs r original_attrs original_encoding =
     r\<lparr>attrs := original_attrs, encoding := original_encoding\<rparr>"

text \<open>
  Modelled from the spec: the decorator \<^verbatim>\<open>esmlab_xr_set_options(arithmetic_join="exact")\<close>
  comes from \<^verbatim>\<open>esmlab.utils.common\<close>, not among the sources either. It makes array
  arithmetic refuse operands whose common axes do not match; \<open>bcast\<close> above is that
  arithmetic for arrays without coordinate labels.
\<close>

section \<open>Weights and dimensions\<close>

text \<open>
  The \<^verbatim>\<open>dim\<close> argument as the dispatch of lines 24 to 31 sees it: \<^verbatim>\<open>None\<close>, a string,
  a list of names, or a tuple of names (any value that is neither a string nor a list
  takes the \<^verbatim>\<open>else\<close> branch).
\<close>

datatype dimspec = DimNone | DimStr string | DimList "string list" | DimTuple "string list"

definition name_str :: "'a DataArray \<Rightarrow> string" where
  "name_str x = (case name x of None \<Rightarrow> ''None'' | Some n \<Rightarrow> n)"

text \<open>Lines 24 to 35 of \<^verbatim>\<open>_get_weights_and_dims\<close>: the dimensions to reduce over.\<close>

definition resolve_dims :: "fval DataArray \<Rightarrow> dimspec \<Rightarrow> error + string list" where
  "resolve_dims x dim_spec =
     (let requested = (case dim_spec of
                         DimStr d \<Rightarrow> if d = [] then dims x else [d]
                       | DimList ds \<Rightarrow> ds
                       | _ \<Rightarrow> dims x);
          op_over_dims = filter (\<lambda>k. k \<in> set (dims x)) requested
      in if op_over_dims = []
         then Inl (InvalidDimension (''Unexpected dimensions for variable '' @ name_str x))
         else Inr op_over_dims)"

text \<open>Line 37: the lengths of the axes of \<open>x\<close> that are reduced, in the order of \<open>x\<close>.\<close>

definition dims_shape :: "fval DataArray \<Rightarrow> string list \<Rightarrow> nat list" where
  "dims_shape x op_over_dims = map snd (filter (\<lambda>(d, l). d \<in> set op_over_dims) (sizes x))"

text \<open>Lines 38 to 52: default or checked weights, the validity mask, the masked weights.\<close>

definition masked_weights ::
  "fval DataArray \<Rightarrow> fval DataArray option \<Rightarrow> fval DataArray option \<Rightarrow> string list
     \<Rightarrow> error + fval DataArray" where
  "masked_weights x y weights op_over_dims =
     bindE (case weights of
              None \<Rightarrow> ones_array (dims_shape x op_over_dims) op_over_dims
            | Some w \<Rightarrow> if shape w = dims_shape x op_over_dims then Inr w else Inl ShapeMismatch)
       (\<lambda>w.
     bindE (case y of
              Some y' \<Rightarrow> if shape x = shape y' then bcast (\<and>) (notnull x) (notnull y')
                         else Inl ShapeMismatch
            | None \<Rightarrow> Inr (notnull x))
       (\<lambda>valid. da_where w valid))"

text \<open>Line 56: \<^verbatim>\<open>(weights / weights.sum(op_over_dims)).sum(op_over_dims)\<close>.\<close>

definition normalized_total :: "fval DataArray \<Rightarrow> string list \<Rightarrow> error + fval DataArray" where
  "normalized_total w op_over_dims =
     bindE (da_sum w op_over_dims) (\<lambda>total.
     bindE (bcast fdiv w total) (\<lambda>q. da_sum q op_over_dims))"

text \<open>
  \<^verbatim>\<open>np.testing.assert_allclose(actual, 1.0)\<close> with its defaults \<^verbatim>\<open>rtol=1e-07\<close>,
  \<^verbatim>\<open>atol=0\<close>: every element must be a number with \<open>|actual - 1| \<le> rtol * |1|\<close>; a NaN
  or an infinity fails the comparison.
\<close>

fun close_to_one :: "fval \<Rightarrow> bool" where
  "close_to_one (Fin r) = (\<bar>r - 1\<bar> \<le> 1 / 10000000)"
| "close_to_one _ = False"

definition allclose_one :: "fval DataArray \<Rightarrow> bool" where
  "allclose_one a = list_all (\<lambda>i. close_to_one (elem a i)) (positions (sizes a) (\<lambda>d. 0))"

definition get_weights_and_dims ::
  "fval DataArray \<Rightarrow> fval DataArray option \<Rightarrow> fval DataArray option \<Rightarrow> dimspec
     \<Rightarrow> error + (fval DataArray \<times> string list)" where
  "get_weights_and_dims x y weights dim_spec =
     bindE (resolve_dims x dim_spec) (\<lambda>op_over_dims.
     bindE (masked_weights x y weights op_over_dims) (\<lambda>w.
     bindE (normalized_total w op_over_dims) (\<lambda>total.
     if allclose_one total then Inr (w, op_over_dims) else Inl NormalizationError)))"

section \<open>The six operators\<close>

text \<open>
  An operator returns the warnings it emitted (\<^verbatim>\<open>warnings.warn\<close>, in order) and either
  the exception it raised or its result.
\<close>

type_synonym 'a outcome = "string list \<times> (error + 'a)"

definition bindW :: "'a outcome \<Rightarrow> ('a \<Rightarrow> 'b outcome) \<Rightarrow> 'b outcome" where
  "bindW m f =
     (case m of (ws, r) \<Rightarrow>
        (case r of
           Inl e \<Rightarrow> (ws, Inl e)
         | Inr v \<Rightarrow> (case f v of (ws', r') \<Rightarrow> (ws @ ws', r'))))"

definition warn_if_none :: "'a option \<Rightarrow> string \<Rightarrow> unit outcome" where
  "warn_if_none weights msg = (if weights = None then ([msg], Inr ()) else ([], Inr ()))"

definition lift :: "error + 'a \<Rightarrow> 'a outcome" where
  "lift m = ([], m)"

definition weighted_sum ::
  "fval DataArray \<Rightarrow> fval DataArray option \<Rightarrow> dimspec \<Rightarrow> fval DataArray outcome" where
  "weighted_sum x weights dim_spec =
     bindW (warn_if_none weights ''Computing sum with equal weights for all data points'') (\<lambda>_.
     bindW (lift (get_weights_and_dims x None weights dim_spec)) (\<lambda>(w, op_over_dims).
     bindW (lift (bindE (bcast fmul x w) (\<lambda>xw. da_sum xw op_over_dims))) (\<lambda>x_w_sum.
     lift (Inr (update_attrs x_w_sum (fst (get_original_attrs x)) (snd (get_original_attrs x)))))))"

definition weighted_mean ::
  "fval DataArray \<Rightarrow> fval DataArray option \<Rightarrow> dimspec \<Rightarrow> fval DataArray outcome" where
  "weighted_mean x weights dim_spec =
     bindW (warn_if_none weights ''Computing mean with equal weights for all data points'') (\<lambda>_.
     bindW (lift (get_weights_and_dims x None weights dim_spec)) (\<lambda>(w, op_over_dims).
     bindW (weighted_sum x (Some w) (DimList op_over_dims)) (\<lambda>s.
     bindW (lift (bindE (da_sum w op_over_dims) (\<lambda>total. bcast fdiv s total))) (\<lambda>x_w_mean.
     lift (Inr (update_attrs x_w_mean (fst (get_original_attrs x)) (snd (get_original_attrs x))))))))"

definition weighted_std ::
  "fval DataArray \<Rightarrow> fval DataArray option \<Rightarrow> dimspec \<Rightarrow> int \<Rightarrow> fval DataArray outcome" where
  "weighted_std x weights dim_spec ddof =
     bindW (warn_if_none weights
              ''Computing standard deviation with equal weights for all data points'') (\<lambda>_.
     bindW (lift (get_weights_and_dims x None weights dim_spec)) (\<lambda>(w, op_over_dims).
     bindW (weighted_mean x (Some w) (DimList op_over_dims)) (\<lambda>x_w_mean.
     bindW (lift
       (bindE (bcast fsub x x_w_mean) (\<lambda>dev.
        bindE (bcast fmul w (da_map fsquare dev)) (\<lambda>wdev.
        bindE (da_sum wdev op_over_dims) (\<lambda>num.
        bindE (da_sum w op_over_dims) (\<lambda>total.
        bindE (bcast fdiv num (da_map (\<lambda>v. fsub v (Fin (real_of_int ddof))) total)) (\<lambda>q.
        Inr (da_map fsqrt q)))))))) (\<lambda>x_w_std.
     lift (Inr (update_attrs x_w_std (fst (get_original_attrs x)) (snd (get_original_attrs x))))))))"

definition weighted_rmsd ::
  "fval DataArray \<Rightarrow> fval DataArray \<Rightarrow> fval DataArray option \<Rightarrow> dimspec
     \<Rightarrow> fval DataArray outcome" where
  "weighted_rmsd x y weights dim_spec =
     bindW (warn_if_none weights
              ''Computing root-mean-square-deviation with equal weights for all data points'') (\<lambda>_.
     bindW (lift (get_weights_and_dims x (Some y) weights dim_spec)) (\<lambda>(w, op_over_dims).
     bindW (lift (bindE (bcast fsub x y) (\<lambda>d. Inr (da_map fsquare d)))) (\<lambda>dev.
     bindW (weighted_mean dev (Some w) (DimList op_over_dims)) (\<lambda>dev_mean.
     lift (Inr (da_map fsqrt dev_mean))))))"

definition weighted_cov ::
  "fval DataArray \<Rightarrow> fval DataArray \<Rightarrow> fval DataArray option \<Rightarrow> dimspec
     \<Rightarrow> fval DataArray outcome" where
  "weighted_cov x y weights dim_spec =
     bindW (warn_if_none weights
              ''Computing weighted covariance with equal weights for all data points'') (\<lambda>_.
     bindW (lift (get_weights_and_dims x (Some y) weights dim_spec)) (\<lambda>(w, op_over_dims).
     bindW (weighted_mean x (Some w) (DimList op_over_dims)) (\<lambda>mean_x.
     bindW (weighted_mean y (Some w) (DimList op_over_dims)) (\<lambda>mean_y.
     bindW (lift
       (bindE (bcast fsub x mean_x) (\<lambda>dev_x.
        bindE (bcast fsub y mean_y) (\<lambda>dev_y.
        bcast fmul dev_x dev_y)))) (\<lambda>dev_xy.
     weighted_mean dev_xy (Some w) (DimList op_over_dims))))))"

definition weighted_corr ::
  "fval DataArray \<Rightarrow> fval DataArray \<Rightarrow> fval DataArray option \<Rightarrow> dimspec
     \<Rightarrow> fval DataArray outcome" where
  "weighted_corr x y weights dim_spec =
     bindW (warn_if_none weights
              ''Computing weighted correlation with equal weights for all data points'') (\<lambda>_.
     bindW (lift (get_weights_and_dims x (Some y) weights dim_spec)) (\<lambda>(w, op_over_dims).
     bindW (weighted_cov x y (Some w) (DimList op_over_dims)) (\<lambda>numerator.
     bindW (weighted_cov x x (Some w) (DimList op_over_dims)) (\<lambda>cov_xx.
     bindW (weighted_cov y y (Some w) (DimList op_over_dims)) (\<lambda>cov_yy.
     bindW (lift (bindE (bcast fmul cov_xx cov_yy) (\<lambda>p. Inr (da_map fsqrt p)))) (\<lambda>denominator.
     lift (bcast fdiv numerator denominator)))))))"

section \<open>Arrays written out\<close>

text \<open>\<^verbatim>\<open>xr.DataArray(vs, dims=[d])\<close> and \<^verbatim>\<open>xr.DataArray(rows, dims=[d1, d2])\<close>: arrays of
  one and of two axes given by their elements, without name or metadata.\<close>

definition array1 :: "string \<Rightarrow> fval list \<Rightarrow> fval DataArray" where
  "array1 d vs = \<lparr>name = None, dims = [d], shape = [length vs],
                  elem = (\<lambda>i. vs ! i d), attrs = [], encoding = []\<rparr>"

definition array2 :: "string \<Rightarrow> string \<Rightarrow> fval list list \<Rightarrow> fval DataArray" where
  "array2 d1 d2 rows = \<lparr>name = None, dims = [d1, d2], shape = [length rows, length (hd rows)],
                        elem = (\<lambda>i. rows ! i d1 ! i d2), attrs = [], encoding = []\<rparr>"

text \<open>The array of the spec's scenario: \<open>[[1, 2], [3, 4]]\<close> over the axes \<open>a\<close> and \<open>b\<close>.\<close>

definition scenario_x :: "fval DataArray" where
  "scenario_x = array2 ''a'' ''b'' [[Fin 1, Fin 2], [Fin 3, Fin 4]]"

text \<open>The error of line 35 for the array \<open>x\<close>.\<close>

definition unexpected_dimensions :: "'a DataArray \<Rightarrow> error" where
  "unexpected_dimensions x = InvalidDimension (''Unexpected dimensions for variable '' @ name_str x)"

text \<open>Uniform weights \<open>[1, 1]\<close> along the axis \<open>a\<close>, and weights that are all zero.\<close>

definition ones_a :: "fval DataArray" where
  "ones_a = array1 ''a'' [Fin 1, Fin 1]"

definition zeros_a :: "fval DataArray" where
  "zeros_a = array1 ''a'' [Fin 0, Fin 0]"

text \<open>Arrays along the axis \<open>a\<close>: two values, three values, a constant, one that
  holds an infinity, and one of infinities only.\<close>

definition one_two :: "fval DataArray" where
  "one_two = array1 ''a'' [Fin 1, Fin 2]"

definition one_two_three :: "fval DataArray" where
  "one_two_three = array1 ''a'' [Fin 1, Fin 2, Fin 3]"

definition two_two :: "fval DataArray" where
  "two_two = array1 ''a'' [Fin 2, Fin 2]"

definition one_two_inf :: "fval DataArray" where
  "one_two_inf = array1 ''a'' [Fin 1, Fin 2, PInf]"

definition inf_inf :: "fval DataArray" where
  "inf_inf = array1 ''a'' [PInf, PInf]"

text \<open>The array \<open>[1, 2]\<close> with a name, an attribute and an encoding.\<close>

definition metres :: "fval DataArray" where
  "metres = \<lparr>name = Some ''depth'', dims = [''a''], shape = [2],
             elem = (\<lambda>i. [Fin 1, Fin 2] ! i ''a''),
             attrs = [(''units'', ''m'')], encoding = [(''dtype'', ''float32'')]\<rparr>"

text \<open>
  The index that puts the axes \<open>ds\<close> at the positions \<open>ks\<close>: it addresses one element of
  an array with these axes. The positions are in range when each is below the length of
  its axis.
\<close>

definition place :: "string list \<Rightarrow> nat list \<Rightarrow> index" where
  "place ds ks = fold (\<lambda>(d, k) i. i(d := k)) (zip ds ks) (\<lambda>d. 0)"

definition in_range :: "nat list \<Rightarrow> 'a DataArray \<Rightarrow> bool" where
  "in_range ks a = list_all2 (<) ks (map snd (sizes a))"

definition element_at :: "'a DataArray \<Rightarrow> nat list \<Rightarrow> 'a" where
  "element_at a ks = elem a (place (map fst (sizes a)) ks)"

section \<open>Reductions over all axes: the quantities computed\<close>

text \<open>
  An array is well formed when its axis names are distinct and it has one length per
  axis; two arrays have the same axes when they agree on names and lengths.
\<close>

definition well_formed :: "'a DataArray \<Rightarrow> bool" where
  "well_formed a \<longleftrightarrow> distinct (dims a) \<and> length (shape a) = length (dims a)"

definition same_axes :: "'a DataArray \<Rightarrow> 'b DataArray \<Rightarrow> bool" where
  "same_axes a b \<longleftrightarrow> dims a = dims b \<and> shape a = shape b"

text \<open>
  The masked weight at a position (lines 45 to 52): the weight where \<open>x\<close> (and \<open>y\<close>, when
  given) is not missing, NaN elsewhere.
\<close>

definition masked_fn :: "fval DataArray \<Rightarrow> fval DataArray option \<Rightarrow> fval DataArray \<Rightarrow> index \<Rightarrow> fval" where
  "masked_fn x y w i =
     (if \<not> isnan (elem x i) \<and> (case y of None \<Rightarrow> True | Some y' \<Rightarrow> \<not> isnan (elem y' i))
      then elem w i else NaN)"

text \<open>
  For masked weights \<open>M\<close> and values \<open>X\<close> over the axes \<open>sz\<close>: the weight total, the
  normalised total that line 55 checks, the weighted sum, the weighted mean and the
  deviation from it.
\<close>

definition total_of :: "(string \<times> nat) list \<Rightarrow> (index \<Rightarrow> fval) \<Rightarrow> index \<Rightarrow> fval" where
  "total_of sz M i = nansum (map M (positions sz i))"

definition check_of :: "(string \<times> nat) list \<Rightarrow> (index \<Rightarrow> fval) \<Rightarrow> index \<Rightarrow> fval" where
  "check_of sz M i = nansum (map (\<lambda>p. fdiv (M p) (total_of sz M p)) (positions sz i))"

definition wsum_of ::
  "(string \<times> nat) list \<Rightarrow> (index \<Rightarrow> fval) \<Rightarrow> (index \<Rightarrow> fval) \<Rightarrow> index \<Rightarrow> fval" where
  "wsum_of sz X M i = nansum (map (\<lambda>p. fmul (X p) (M p)) (positions sz i))"

definition mean_of ::
  "(string \<times> nat) list \<Rightarrow> (index \<Rightarrow> fval) \<Rightarrow> (index \<Rightarrow> fval) \<Rightarrow> index \<Rightarrow> fval" where
  "mean_of sz X M i = fdiv (wsum_of sz X M i) (total_of sz M i)"

definition dev_of ::
  "(string \<times> nat) list \<Rightarrow> (index \<Rightarrow> fval) \<Rightarrow> (index \<Rightarrow> fval) \<Rightarrow> index \<Rightarrow> fval" where
  "dev_of sz X M i = fsub (X i) (mean_of sz X M i)"

text \<open>The real number a value stands for in a sum that skips NaN.\<close>

fun real_of :: "fval \<Rightarrow> real" where
  "real_of (Fin r) = r"
| "real_of v = 0"

text \<open>The weights \<^verbatim>\<open>xr.DataArray(np.ones(x.shape), dims=x.dims)\<close>.\<close>

definition ones_like :: "fval DataArray \<Rightarrow> fval DataArray" where
  "ones_like x = \<lparr>name = None, dims = dims x, shape = shape x, elem = (\<lambda>i. Fin 1),
                  attrs = [], encoding = []\<rparr>"

section \<open>Missing values and removed positions\<close>

text \<open>
  For an array along the one axis \<open>d\<close>: the array with the elements at the positions \<open>S\<close>
  set to NaN, and the array with the positions \<open>S\<close> removed.
\<close>

definition set_missing :: "string \<Rightarrow> nat set \<Rightarrow> fval DataArray \<Rightarrow> fval DataArray" where
  "set_missing d S x = x\<lparr>elem := (\<lambda>i. if i d \<in> S then NaN else elem x i)\<rparr>"

definition kept :: "nat set \<Rightarrow> nat \<Rightarrow> nat list" where
  "kept S n = filter (\<lambda>k. k \<notin> S) [0..<n]"

definition drop_positions :: "string \<Rightarrow> nat set \<Rightarrow> 'a DataArray \<Rightarrow> 'a DataArray" where
  "drop_positions d S x =
     x\<lparr>shape := [length (kept S (hd (shape x)))],
       elem := (\<lambda>i. elem x (i(d := kept S (hd (shape x)) ! i d)))\<rparr>"

text \<open>Arrays along \<open>a\<close> with a missing value, and weights for them.\<close>

definition one_nan_four :: "fval DataArray" where
  "one_nan_four = array1 ''a'' [Fin 1, NaN, Fin 4]"

definition weights_153 :: "fval DataArray" where
  "weights_153 = array1 ''a'' [Fin 1, Fin 5, Fin 3]"

section \<open>Basic facts\<close>

lemma bindE_Inl [simp]: "bindE (Inl e) f = Inl e"
  by (simp add: bindE_def)

lemma bindE_Inr [simp]: "bindE (Inr v) f = f v"
  by (simp add: bindE_def)

lemma bindE_weak_cong [cong]: "m = m' \<Longrightarrow> bindE m f = bindE m' f"
  by simp

lemma bindE_eq_Inr: "bindE m f = Inr r \<longleftrightarrow> (\<exists>v. m = Inr v \<and> f v = Inr r)"
  by (cases m) simp_all

lemma bindE_eq_Inl: "bindE m f = Inl e \<longleftrightarrow> m = Inl e \<or> (\<exists>v. m = Inr v \<and> f v = Inl e)"
  by (cases m) simp_all

lemma snd_bindW: "snd (bindW m f) = bindE (snd m) (\<lambda>v. snd (f v))"
  by (cases m; cases "snd m") (auto simp: bindW_def split: prod.splits)

lemma fst_bindW:
  "fst (bindW m f) = fst m @ (case snd m of Inl e \<Rightarrow> [] | Inr v \<Rightarrow> fst (f v))"
  by (cases m; cases "snd m") (auto simp: bindW_def split: prod.splits)

lemma snd_lift [simp]: "snd (lift m) = m"
  by (simp add: lift_def)

lemma fst_lift [simp]: "fst (lift m) = []"
  by (simp add: lift_def)

lemma snd_warn_if_none [simp]: "snd (warn_if_none w msg) = Inr ()"
  by (simp add: warn_if_none_def)

lemma fst_warn_if_none [simp]: "fst (warn_if_none w msg) = (if w = None then [msg] else [])"
  by (simp add: warn_if_none_def)

lemma filter_mem_self [simp]: "filter (\<lambda>k. k \<in> set xs) xs = xs"
  by (induction xs) auto

text \<open>What each operator returns or raises, without the warnings.\<close>

lemma snd_weighted_sum:
  "snd (weighted_sum x weights dim_spec) =
     bindE (get_weights_and_dims x None weights dim_spec) (\<lambda>(w, op_over_dims).
     bindE (bcast fmul x w) (\<lambda>xw.
     bindE (da_sum xw op_over_dims) (\<lambda>x_w_sum.
     Inr (update_attrs x_w_sum (attrs x) (encoding x)))))"
  by (cases "get_weights_and_dims x None weights dim_spec")
    (auto simp: weighted_sum_def snd_bindW get_original_attrs_def bindE_def
          split: sum.splits prod.splits)

lemma snd_weighted_mean:
  "snd (weighted_mean x weights dim_spec) =
     bindE (get_weights_and_dims x None weights dim_spec) (\<lambda>(w, op_over_dims).
     bindE (snd (weighted_sum x (Some w) (DimList op_over_dims))) (\<lambda>s.
     bindE (da_sum w op_over_dims) (\<lambda>total.
     bindE (bcast fdiv s total) (\<lambda>x_w_mean.
     Inr (update_attrs x_w_mean (attrs x) (encoding x))))))"
  by (cases "get_weights_and_dims x None weights dim_spec")
    (auto simp: weighted_mean_def snd_bindW get_original_attrs_def bindE_def
          split: sum.splits prod.splits)

lemma snd_weighted_std:
  "snd (weighted_std x weights dim_spec ddof) =
     bindE (get_weights_and_dims x None weights dim_spec) (\<lambda>(w, op_over_dims).
     bindE (snd (weighted_mean x (Some w) (DimList op_over_dims))) (\<lambda>x_w_mean.
     bindE (bcast fsub x x_w_mean) (\<lambda>dev.
     bindE (bcast fmul w (da_map fsquare dev)) (\<lambda>wdev.
     bindE (da_sum wdev op_over_dims) (\<lambda>num.
     bindE (da_sum w op_over_dims) (\<lambda>total.
     bindE (bcast fdiv num (da_map (\<lambda>v. fsub v (Fin (real_of_int ddof))) total)) (\<lambda>q.
     Inr (update_attrs (da_map fsqrt q) (attrs x) (encoding x)))))))))"
  by (cases "get_weights_and_dims x None weights dim_spec")
    (auto simp: weighted_std_def snd_bindW get_original_attrs_def bindE_def
          split: sum.splits prod.splits)

lemma snd_weighted_rmsd:
  "snd (weighted_rmsd x y weights dim_spec) =
     bindE (get_weights_and_dims x (Some y) weights dim_spec) (\<lambda>(w, op_over_dims).
     bindE (bcast fsub x y) (\<lambda>d.
     bindE (snd (weighted_mean (da_map fsquare d) (Some w) (DimList op_over_dims))) (\<lambda>dev_mean.
     Inr (da_map fsqrt dev_mean))))"
  by (cases "get_weights_and_dims x (Some y) weights dim_spec")
    (auto simp: weighted_rmsd_def snd_bindW bindE_def split: sum.splits prod.splits)

lemma snd_weighted_cov:
  "snd (weighted_cov x y weights dim_spec) =
     bindE (get_weights_and_dims x (Some y) weights dim_spec) (\<lambda>(w, op_over_dims).
     bindE (snd (weighted_mean x (Some w) (DimList op_over_dims))) (\<lambda>mean_x.
     bindE (snd (weighted_mean y (Some w) (DimList op_over_dims))) (\<lambda>mean_y.
     bindE (bcast fsub x mean_x) (\<lambda>dev_x.
     bindE (bcast fsub y mean_y) (\<lambda>dev_y.
     bindE (bcast fmul dev_x dev_y) (\<lambda>dev_xy.
     snd (weighted_mean dev_xy (Some w) (DimList op_over_dims))))))))"
  by (cases "get_weights_and_dims x (Some y) weights dim_spec")
    (auto simp: weighted_cov_def snd_bindW bindE_def split: sum.splits prod.splits)

lemma snd_weighted_corr:
  "snd (weighted_corr x y weights dim_spec) =
     bindE (get_weights_and_dims x (Some y) weights dim_spec) (\<lambda>(w, op_over_dims).
     bindE (snd (weighted_cov x y (Some w) (DimList op_over_dims))) (\<lambda>numerator.
     bindE (snd (weighted_cov x x (Some w) (DimList op_over_dims))) (\<lambda>cov_xx.
     bindE (snd (weighted_cov y y (Some w) (DimList op_over_dims))) (\<lambda>cov_yy.
     bindE (bcast fmul cov_xx cov_yy) (\<lambda>p.
     bcast fdiv numerator (da_map fsqrt p))))))"
  by (cases "get_weights_and_dims x (Some y) weights dim_spec")
    (auto simp: weighted_corr_def snd_bindW bindE_def split: sum.splits prod.splits)

section \<open>Dimension resolution\<close>

lemma resolve_dims_None:
  "resolve_dims x DimNone = (if dims x = [] then Inl (unexpected_dimensions x) else Inr (dims x))"
  by (simp add: resolve_dims_def unexpected_dimensions_def)

lemma resolve_dims_Str:
  "d \<noteq> [] \<Longrightarrow>
   resolve_dims x (DimStr d) = (if d \<in> set (dims x) then Inr [d] else Inl (unexpected_dimensions x))"
  by (simp add: resolve_dims_def unexpected_dimensions_def)

lemma resolve_dims_List:
  "resolve_dims x (DimList ds) =
     (if filter (\<lambda>k. k \<in> set (dims x)) ds = [] then Inl (unexpected_dimensions x)
      else Inr (filter (\<lambda>k. k \<in> set (dims x)) ds))"
  by (simp add: resolve_dims_def unexpected_dimensions_def)


lemma resolve_dims_Tuple: "resolve_dims x (DimTuple ds) = resolve_dims x DimNone"
  by (simp add: resolve_dims_def)

lemma get_weights_and_dims_resolved:
  "get_weights_and_dims x y weights dim_spec = Inr (w, ops) \<Longrightarrow> resolve_dims x dim_spec = Inr ops"
  by (auto simp: get_weights_and_dims_def bindE_eq_Inr split: if_splits)

lemma get_weights_and_dims_unresolved:
  "resolve_dims x dim_spec = Inl e \<Longrightarrow> get_weights_and_dims x y weights dim_spec = Inl e"
  by (simp add: get_weights_and_dims_def)

text \<open>
  Claim C7, as amended. The requested axes are all axes of the array when \<^verbatim>\<open>dim\<close> is
  absent, the one name when \<^verbatim>\<open>dim\<close> is a non-empty string, and the list itself when
  \<^verbatim>\<open>dim\<close> is a list; they are filtered, in their order, to the axes the array has. When
  nothing is left, dimension resolution fails with the error that names the array, and so
  does every operator; when an operator's weights are resolved, the dimensions returned
  are the resolved ones.
\<close>

theorem dimension_resolution:
  "resolve_dims x DimNone = (if dims x = [] then Inl (unexpected_dimensions x) else Inr (dims x))
   \<and> (d \<noteq> [] \<longrightarrow>
        resolve_dims x (DimStr d) =
          (if d \<in> set (dims x) then Inr [d] else Inl (unexpected_dimensions x)))
   \<and> resolve_dims x (DimList ds) =
        (if filter (\<lambda>k. k \<in> set (dims x)) ds = [] then Inl (unexpected_dimensions x)
         else Inr (filter (\<lambda>k. k \<in> set (dims x)) ds))
   \<and> (resolve_dims x dim_spec = Inl e \<longrightarrow>
        snd (weighted_sum x weights dim_spec) = Inl e
        \<and> snd (weighted_mean x weights dim_spec) = Inl e
        \<and> snd (weighted_std x weights dim_spec ddof) = Inl e
        \<and> snd (weighted_rmsd x y weights dim_spec) = Inl e
        \<and> snd (weighted_cov x y weights dim_spec) = Inl e
        \<and> snd (weighted_corr x y weights dim_spec) = Inl e)
   \<and> (get_weights_and_dims x y' weights dim_spec = Inr (w, ops) \<longrightarrow>
        resolve_dims x dim_spec = Inr ops)"
  by (simp add: resolve_dims_None resolve_dims_Str resolve_dims_List
        get_weights_and_dims_resolved get_weights_and_dims_unresolved
        snd_weighted_sum snd_weighted_mean snd_weighted_std snd_weighted_rmsd
        snd_weighted_cov snd_weighted_corr)

theorem dimension_resolution_witness:
  "resolve_dims scenario_x DimNone = Inr [''a'', ''b'']
   \<and> resolve_dims scenario_x (DimStr ''b'') = Inr [''b'']
   \<and> resolve_dims scenario_x (DimList [''b'', ''z'', ''a'']) = Inr [''b'', ''a'']
   \<and> resolve_dims scenario_x (DimStr ''z'')
       = Inl (InvalidDimension ''Unexpected dimensions for variable None'')
   \<and> snd (weighted_corr scenario_x scenario_x None (DimStr ''z''))
       = Inl (InvalidDimension ''Unexpected dimensions for variable None'')"
proof -
  have axes: "dims scenario_x = [''a'', ''b'']"
    by (simp add: scenario_x_def array2_def)
  have err: "unexpected_dimensions scenario_x
             = InvalidDimension ''Unexpected dimensions for variable None''"
    by (simp add: unexpected_dimensions_def name_str_def scenario_x_def array2_def)
  have z: "resolve_dims scenario_x (DimStr ''z'')
           = Inl (InvalidDimension ''Unexpected dimensions for variable None'')"
    using dimension_resolution [of scenario_x "''z''"] by (simp add: axes err)
  show ?thesis
    using z dimension_resolution [of scenario_x "''b''" "[''b'', ''z'', ''a'']"
        "DimStr ''z''" "InvalidDimension ''Unexpected dimensions for variable None''"
        None 0 scenario_x]
    by (simp add: axes err)
qed

text \<open>
  Claim C7 as stated fails for the empty string: it is a string, yet it resolves to all
  axes of the array, not to the singleton of that name (which, filtered to the axes of
  this array, would leave nothing and raise).
\<close>

theorem dimension_resolution_counterexample:
  "resolve_dims scenario_x (DimStr '''') = Inr [''a'', ''b'']"
  by (simp add: resolve_dims_def scenario_x_def array2_def)



text \<open>Evaluation of the operators on arrays written out.\<close>

lemma bindW_Inl [simp]: "bindW (ws, Inl e) f = (ws, Inl e)"
  by (simp add: bindW_def)

lemma bindW_Inr [simp]: "bindW (ws, Inr v) f = (case f v of (ws', r') \<Rightarrow> (ws @ ws', r'))"
  by (simp add: bindW_def)

lemma bindW_weak_cong [cong]: "m = m' \<Longrightarrow> bindW m f = bindW m' f"
  by simp

lemma upt_2 [simp]: "[0..<2] = [0, 1]"
  by (simp add: upt_rec)

lemma upt_3 [simp]: "[0..<3] = [0, 1, 2]"
  by (simp add: upt_rec)

lemmas operator_defs =
  weighted_sum_def weighted_mean_def weighted_std_def weighted_rmsd_def weighted_cov_def
  weighted_corr_def get_weights_and_dims_def resolve_dims_def masked_weights_def
  normalized_total_def allclose_one_def dims_shape_def ones_array_def da_map_def notnull_def
  conflicting_def bcast_def da_where_def da_sum_def sizes_def size_of_def
  get_original_attrs_def update_attrs_def warn_if_none_def lift_def name_str_def
  fsub_def fsquare_def

lemmas array_defs =
  array1_def array2_def scenario_x_def ones_a_def zeros_a_def one_two_def one_two_three_def
  two_two_def one_two_inf_def inf_inf_def metres_def place_def in_range_def element_at_def
  one_nan_four_def weights_153_def

section \<open>Shape checks\<close>

lemma weights_shape_checked:
  "resolve_dims x dim_spec = Inr ops \<Longrightarrow> shape w \<noteq> dims_shape x ops \<Longrightarrow>
   get_weights_and_dims x y (Some w) dim_spec = Inl ShapeMismatch"
  by (simp add: get_weights_and_dims_def masked_weights_def)

lemma pair_shape_checked:
  "resolve_dims x dim_spec = Inr ops \<Longrightarrow> shape x \<noteq> shape y \<Longrightarrow>
   get_weights_and_dims x (Some y) weights dim_spec =
     (if weights = None \<and> length ops \<noteq> length (dims_shape x ops) then Inl XarrayError
      else Inl ShapeMismatch)"
  by (cases weights) (simp_all add: get_weights_and_dims_def masked_weights_def ones_array_def)

text \<open>
  Claim C6, as amended. When the dimensions resolve, supplied weights whose shape differs
  from the lengths of the reduced axes of \<open>x\<close> make each of the six operators raise the
  AssertionError of line 42. When the dimensions resolve and the weights are supplied, or
  are omitted and the default weights can be built (as many reduced axes as names),
  arrays \<open>x\<close> and \<open>y\<close> of different shapes make each of the three two-array operators
  raise an AssertionError (line 42 or line 46). No result is returned in either case.
\<close>

theorem shape_mismatch_raises:
  "(resolve_dims x dim_spec = Inr ops \<and> shape w \<noteq> dims_shape x ops \<longrightarrow>
      snd (weighted_sum x (Some w) dim_spec) = Inl ShapeMismatch
      \<and> snd (weighted_mean x (Some w) dim_spec) = Inl ShapeMismatch
      \<and> snd (weighted_std x (Some w) dim_spec ddof) = Inl ShapeMismatch
      \<and> snd (weighted_rmsd x y (Some w) dim_spec) = Inl ShapeMismatch
      \<and> snd (weighted_cov x y (Some w) dim_spec) = Inl ShapeMismatch
      \<and> snd (weighted_corr x y (Some w) dim_spec) = Inl ShapeMismatch)
   \<and> (resolve_dims x dim_spec = Inr ops \<and> shape x \<noteq> shape y
        \<and> (weights = None \<longrightarrow> length ops = length (dims_shape x ops)) \<longrightarrow>
      snd (weighted_rmsd x y weights dim_spec) = Inl ShapeMismatch
      \<and> snd (weighted_cov x y weights dim_spec) = Inl ShapeMismatch
      \<and> snd (weighted_corr x y weights dim_spec) = Inl ShapeMismatch)"
proof (intro conjI impI)
  assume a: "resolve_dims x dim_spec = Inr ops \<and> shape w \<noteq> dims_shape x ops"
  then have g: "\<And>y. get_weights_and_dims x y (Some w) dim_spec = Inl ShapeMismatch"
    by (simp add: weights_shape_checked)
  show "snd (weighted_sum x (Some w) dim_spec) = Inl ShapeMismatch"
    by (simp add: snd_weighted_sum g)
  show "snd (weighted_mean x (Some w) dim_spec) = Inl ShapeMismatch"
    by (simp add: snd_weighted_mean g)
  show "snd (weighted_std x (Some w) dim_spec ddof) = Inl ShapeMismatch"
    by (simp add: snd_weighted_std g)
  show "snd (weighted_rmsd x y (Some w) dim_spec) = Inl ShapeMismatch"
    by (simp add: snd_weighted_rmsd g)
  show "snd (weighted_cov x y (Some w) dim_spec) = Inl ShapeMismatch"
    by (simp add: snd_weighted_cov g)
  show "snd (weighted_corr x y (Some w) dim_spec) = Inl ShapeMismatch"
    by (simp add: snd_weighted_corr g)
next
  assume b: "resolve_dims x dim_spec = Inr ops \<and> shape x \<noteq> shape y
        \<and> (weights = None \<longrightarrow> length ops = length (dims_shape x ops))"
  then have g: "get_weights_and_dims x (Some y) weights dim_spec = Inl ShapeMismatch"
    using pair_shape_checked [of x dim_spec ops y weights] by auto
  show "snd (weighted_rmsd x y weights dim_spec) = Inl ShapeMismatch"
    by (simp add: snd_weighted_rmsd g)
  show "snd (weighted_cov x y weights dim_spec) = Inl ShapeMismatch"
    by (simp add: snd_weighted_cov g)
  show "snd (weighted_corr x y weights dim_spec) = Inl ShapeMismatch"
    by (simp add: snd_weighted_corr g)
qed

theorem shape_mismatch_raises_witness:
  "snd (weighted_sum scenario_x (Some one_two_three) (DimStr ''a'')) = Inl ShapeMismatch
   \<and> snd (weighted_corr scenario_x scenario_x (Some one_two_three) (DimStr ''a''))
       = Inl ShapeMismatch
   \<and> snd (weighted_rmsd one_two one_two_three None DimNone) = Inl ShapeMismatch
   \<and> snd (weighted_cov one_two one_two_three (Some ones_a) DimNone) = Inl ShapeMismatch"
proof -
  have r1: "resolve_dims scenario_x (DimStr ''a'') = Inr [''a'']"
    by (simp add: resolve_dims_def array_defs)
  have s1: "shape one_two_three \<noteq> dims_shape scenario_x [''a'']"
    by (simp add: dims_shape_def sizes_def array_defs)
  have r2: "resolve_dims one_two DimNone = Inr [''a'']"
    by (simp add: resolve_dims_def array_defs)
  have s2: "shape one_two \<noteq> shape one_two_three"
    by (simp add: array_defs)
  have l2: "length [''a''] = length (dims_shape one_two [''a''])"
    by (simp add: dims_shape_def sizes_def array_defs)
  note t1 = shape_mismatch_raises [of scenario_x "DimStr ''a''" "[''a'']" one_two_three 0
      scenario_x None]
  note t2 = shape_mismatch_raises [of one_two DimNone "[''a'']" ones_a 0 one_two_three None]
  note t3 = shape_mismatch_raises [of one_two DimNone "[''a'']" ones_a 0 one_two_three
      "Some ones_a"]
  from t1 r1 s1 have a: "snd (weighted_sum scenario_x (Some one_two_three) (DimStr ''a''))
      = Inl ShapeMismatch" by blast
  from t1 r1 s1 have b: "snd (weighted_corr scenario_x scenario_x (Some one_two_three)
      (DimStr ''a'')) = Inl ShapeMismatch" by blast
  from t2 r2 s2 l2 have c: "snd (weighted_rmsd one_two one_two_three None DimNone)
      = Inl ShapeMismatch" by blast
  from t3 r2 s2 have d: "snd (weighted_cov one_two one_two_three (Some ones_a) DimNone)
      = Inl ShapeMismatch" by blast
  show ?thesis using a b c d by simp
qed

text \<open>
  Claim C6 as stated fails when the dimensions do not resolve: \<open>x\<close> and \<open>y\<close> differ in
  shape, and the call raises the ValueError of line 35, not an AssertionError.
\<close>

theorem shape_mismatch_counterexample:
  "weighted_rmsd one_two one_two_three None (DimStr ''z'')
     = ([''Computing root-mean-square-deviation with equal weights for all data points''],
        Inl (InvalidDimension ''Unexpected dimensions for variable None''))"
  by (simp add: operator_defs array_defs)

section \<open>The normalisation check\<close>

lemma positions_all:
  "list_all P (positions dsz i) \<longleftrightarrow>
     (\<forall>ks. list_all2 (<) ks (map snd dsz) \<longrightarrow>
        P (fold (\<lambda>(d, k) i. i(d := k)) (zip (map fst dsz) ks) i))"
proof (induction dsz arbitrary: i)
  case Nil
  then show ?case by simp
next
  case (Cons p dsz)
  obtain d n where p: "p = (d, n)" by (cases p)
  have "list_all P (positions (p # dsz) i)
        \<longleftrightarrow> (\<forall>k<n. list_all P (positions dsz (i(d := k))))"
    unfolding p by (auto simp: list_all_iff)
  also have "\<dots> \<longleftrightarrow> (\<forall>k<n. \<forall>ks. list_all2 (<) ks (map snd dsz) \<longrightarrow>
        P (fold (\<lambda>(d, k) i. i(d := k)) (zip (map fst dsz) ks) (i(d := k))))"
    by (simp only: Cons.IH)
  also have "\<dots> \<longleftrightarrow> (\<forall>ks'. list_all2 (<) ks' (map snd (p # dsz)) \<longrightarrow>
        P (fold (\<lambda>(d, k) i. i(d := k)) (zip (map fst (p # dsz)) ks') i))"
  proof
    assume h: "\<forall>k<n. \<forall>ks. list_all2 (<) ks (map snd dsz) \<longrightarrow>
        P (fold (\<lambda>(d, k) i. i(d := k)) (zip (map fst dsz) ks) (i(d := k)))"
    show "\<forall>ks'. list_all2 (<) ks' (map snd (p # dsz)) \<longrightarrow>
        P (fold (\<lambda>(d, k) i. i(d := k)) (zip (map fst (p # dsz)) ks') i)"
    proof (intro allI impI)
      fix ks' assume "list_all2 (<) ks' (map snd (p # dsz))"
      then obtain k ks where ks': "ks' = k # ks" and k: "k < n"
        and ks: "list_all2 (<) ks (map snd dsz)"
        unfolding p by (auto simp: list_all2_Cons2)
      from h k ks show "P (fold (\<lambda>(d, k) i. i(d := k)) (zip (map fst (p # dsz)) ks') i)"
        unfolding p ks' by simp
    qed
  next
    assume h: "\<forall>ks'. list_all2 (<) ks' (map snd (p # dsz)) \<longrightarrow>
        P (fold (\<lambda>(d, k) i. i(d := k)) (zip (map fst (p # dsz)) ks') i)"
    show "\<forall>k<n. \<forall>ks. list_all2 (<) ks (map snd dsz) \<longrightarrow>
        P (fold (\<lambda>(d, k) i. i(d := k)) (zip (map fst dsz) ks) (i(d := k)))"
    proof (intro allI impI)
      fix k ks assume k: "k < n" and ks: "list_all2 (<) ks (map snd dsz)"
      then have "list_all2 (<) (k # ks) (map snd (p # dsz))"
        unfolding p by simp
      with h have "P (fold (\<lambda>(d, k) i. i(d := k)) (zip (map fst (p # dsz)) (k # ks)) i)"
        by blast
      then show "P (fold (\<lambda>(d, k) i. i(d := k)) (zip (map fst dsz) ks) (i(d := k)))"
        unfolding p by simp
    qed
  qed
  finally show ?case .
qed

lemma allclose_one_iff:
  "allclose_one t \<longleftrightarrow> (\<forall>ks. in_range ks t \<longrightarrow> close_to_one (element_at t ks))"
  by (simp add: allclose_one_def positions_all in_range_def element_at_def place_def)

lemma close_to_one_iff: "close_to_one v \<longleftrightarrow> (\<exists>r. v = Fin r \<and> \<bar>r - 1\<bar> \<le> 1 / 10000000)"
  by (cases v) simp_all

lemma get_weights_and_dims_checked:
  "get_weights_and_dims x y weights dim_spec = Inr (w, ops) \<Longrightarrow>
   \<exists>t. resolve_dims x dim_spec = Inr ops \<and> masked_weights x y weights ops = Inr w
        \<and> normalized_total w ops = Inr t \<and> allclose_one t"
  by (auto simp: get_weights_and_dims_def bindE_eq_Inr split: if_splits)

lemma get_weights_and_dims_violation:
  "resolve_dims x dim_spec = Inr ops \<Longrightarrow> masked_weights x y weights ops = Inr w \<Longrightarrow>
   normalized_total w ops = Inr t \<Longrightarrow> \<not> allclose_one t \<Longrightarrow>
   get_weights_and_dims x y weights dim_spec = Inl NormalizationError"
  by (simp add: get_weights_and_dims_def)

lemma operators_resolve_weights:
  "snd (weighted_sum x weights dim_spec) = Inr r \<Longrightarrow>
     \<exists>w ops. get_weights_and_dims x None weights dim_spec = Inr (w, ops)"
  "snd (weighted_mean x weights dim_spec) = Inr r \<Longrightarrow>
     \<exists>w ops. get_weights_and_dims x None weights dim_spec = Inr (w, ops)"
  "snd (weighted_std x weights dim_spec ddof) = Inr r \<Longrightarrow>
     \<exists>w ops. get_weights_and_dims x None weights dim_spec = Inr (w, ops)"
  "snd (weighted_rmsd x y weights dim_spec) = Inr r \<Longrightarrow>
     \<exists>w ops. get_weights_and_dims x (Some y) weights dim_spec = Inr (w, ops)"
  "snd (weighted_cov x y weights dim_spec) = Inr r \<Longrightarrow>
     \<exists>w ops. get_weights_and_dims x (Some y) weights dim_spec = Inr (w, ops)"
  "snd (weighted_corr x y weights dim_spec) = Inr r \<Longrightarrow>
     \<exists>w ops. get_weights_and_dims x (Some y) weights dim_spec = Inr (w, ops)"
  by (auto simp: snd_weighted_sum snd_weighted_mean snd_weighted_std snd_weighted_rmsd
        snd_weighted_cov snd_weighted_corr bindE_eq_Inr)

lemma operators_fail_with_resolver:
  "get_weights_and_dims x None weights dim_spec = Inl e \<Longrightarrow>
     snd (weighted_sum x weights dim_spec) = Inl e
     \<and> snd (weighted_mean x weights dim_spec) = Inl e
     \<and> snd (weighted_std x weights dim_spec ddof) = Inl e"
  "get_weights_and_dims x (Some y) weights dim_spec = Inl e \<Longrightarrow>
     snd (weighted_rmsd x y weights dim_spec) = Inl e
     \<and> snd (weighted_cov x y weights dim_spec) = Inl e
     \<and> snd (weighted_corr x y weights dim_spec) = Inl e"
  by (simp_all add: snd_weighted_sum snd_weighted_mean snd_weighted_std snd_weighted_rmsd
        snd_weighted_cov snd_weighted_corr)

lemma resolved_weights_normalized:
  assumes "get_weights_and_dims x y weights dim_spec = Inr (w, ops)"
  shows "\<exists>t. normalized_total w ops = Inr t
           \<and> (\<forall>ks. in_range ks t \<longrightarrow> (\<exists>v. element_at t ks = Fin v \<and> \<bar>v - 1\<bar> \<le> 1 / 10000000))"
  using get_weights_and_dims_checked [OF assms]
  by (auto simp: allclose_one_iff close_to_one_iff)

text \<open>
  Claim C5. Whenever one of the six operators returns a result, the weights it resolved
  passed the check of line 55: the total \<^verbatim>\<open>(weights / weights.sum(dims)).sum(dims)\<close> of
  the masked weights was computed, and at every position of the axes that are not
  reduced it is a number within \<open>1e-07\<close> of 1. When the dimensions resolve, the weights
  are masked and that total violates the check at some position, the call raises the
  AssertionError of \<^verbatim>\<open>assert_allclose\<close> and returns nothing.
\<close>

theorem weights_normalized:
  "((snd (weighted_sum x weights dim_spec) = Inr r
       \<or> snd (weighted_mean x weights dim_spec) = Inr r
       \<or> snd (weighted_std x weights dim_spec ddof) = Inr r) \<longrightarrow>
      (\<exists>w ops t. get_weights_and_dims x None weights dim_spec = Inr (w, ops)
         \<and> normalized_total w ops = Inr t
         \<and> (\<forall>ks. in_range ks t \<longrightarrow>
               (\<exists>v. element_at t ks = Fin v \<and> \<bar>v - 1\<bar> \<le> 1 / 10000000))))
   \<and> ((snd (weighted_rmsd x y weights dim_spec) = Inr r
       \<or> snd (weighted_cov x y weights dim_spec) = Inr r
       \<or> snd (weighted_corr x y weights dim_spec) = Inr r) \<longrightarrow>
      (\<exists>w ops t. get_weights_and_dims x (Some y) weights dim_spec = Inr (w, ops)
         \<and> normalized_total w ops = Inr t
         \<and> (\<forall>ks. in_range ks t \<longrightarrow>
               (\<exists>v. element_at t ks = Fin v \<and> \<bar>v - 1\<bar> \<le> 1 / 10000000))))
   \<and> ((\<exists>ops w t ks. resolve_dims x dim_spec = Inr ops
          \<and> masked_weights x None weights ops = Inr w \<and> normalized_total w ops = Inr t
          \<and> in_range ks t \<and> \<not> close_to_one (element_at t ks)) \<longrightarrow>
      snd (weighted_sum x weights dim_spec) = Inl NormalizationError
      \<and> snd (weighted_mean x weights dim_spec) = Inl NormalizationError
      \<and> snd (weighted_std x weights dim_spec ddof) = Inl NormalizationError)
   \<and> ((\<exists>ops w t ks. resolve_dims x dim_spec = Inr ops
          \<and> masked_weights x (Some y) weights ops = Inr w \<and> normalized_total w ops = Inr t
          \<and> in_range ks t \<and> \<not> close_to_one (element_at t ks)) \<longrightarrow>
      snd (weighted_rmsd x y weights dim_spec) = Inl NormalizationError
      \<and> snd (weighted_cov x y weights dim_spec) = Inl NormalizationError
      \<and> snd (weighted_corr x y weights dim_spec) = Inl NormalizationError)"
proof (intro conjI impI)
  assume "snd (weighted_sum x weights dim_spec) = Inr r
       \<or> snd (weighted_mean x weights dim_spec) = Inr r
       \<or> snd (weighted_std x weights dim_spec ddof) = Inr r"
  then obtain w ops where "get_weights_and_dims x None weights dim_spec = Inr (w, ops)"
    using operators_resolve_weights(1-3) by blast
  then show "\<exists>w ops t. get_weights_and_dims x None weights dim_spec = Inr (w, ops)
         \<and> normalized_total w ops = Inr t
         \<and> (\<forall>ks. in_range ks t \<longrightarrow>
               (\<exists>v. element_at t ks = Fin v \<and> \<bar>v - 1\<bar> \<le> 1 / 10000000))"
    using resolved_weights_normalized by blast
next
  assume "snd (weighted_rmsd x y weights dim_spec) = Inr r
       \<or> snd (weighted_cov x y weights dim_spec) = Inr r
       \<or> snd (weighted_corr x y weights dim_spec) = Inr r"
  then obtain w ops where "get_weights_and_dims x (Some y) weights dim_spec = Inr (w, ops)"
    using operators_resolve_weights(4-6) by blast
  then show "\<exists>w ops t. get_weights_and_dims x (Some y) weights dim_spec = Inr (w, ops)
         \<and> normalized_total w ops = Inr t
         \<and> (\<forall>ks. in_range ks t \<longrightarrow>
               (\<exists>v. element_at t ks = Fin v \<and> \<bar>v - 1\<bar> \<le> 1 / 10000000))"
    using resolved_weights_normalized by blast
next
  assume "\<exists>ops w t ks. resolve_dims x dim_spec = Inr ops
          \<and> masked_weights x None weights ops = Inr w \<and> normalized_total w ops = Inr t
          \<and> in_range ks t \<and> \<not> close_to_one (element_at t ks)"
  then have g: "get_weights_and_dims x None weights dim_spec = Inl NormalizationError"
    using get_weights_and_dims_violation allclose_one_iff by blast
  from operators_fail_with_resolver(1) [OF g]
  show "snd (weighted_sum x weights dim_spec) = Inl NormalizationError"
    and "snd (weighted_mean x weights dim_spec) = Inl NormalizationError"
    and "snd (weighted_std x weights dim_spec ddof) = Inl NormalizationError"
    by blast+
next
  assume "\<exists>ops w t ks. resolve_dims x dim_spec = Inr ops
          \<and> masked_weights x (Some y) weights ops = Inr w \<and> normalized_total w ops = Inr t
          \<and> in_range ks t \<and> \<not> close_to_one (element_at t ks)"
  then have g: "get_weights_and_dims x (Some y) weights dim_spec = Inl NormalizationError"
    using get_weights_and_dims_violation allclose_one_iff by blast
  from operators_fail_with_resolver(2) [OF g]
  show "snd (weighted_rmsd x y weights dim_spec) = Inl NormalizationError"
    and "snd (weighted_cov x y weights dim_spec) = Inl NormalizationError"
    and "snd (weighted_corr x y weights dim_spec) = Inl NormalizationError"
    by blast+
qed

theorem weights_normalized_witness:
  "(\<exists>w ops t. get_weights_and_dims one_two None (Some ones_a) DimNone = Inr (w, ops)
       \<and> normalized_total w ops = Inr t
       \<and> (\<exists>v. element_at t [] = Fin v \<and> \<bar>v - 1\<bar> \<le> 1 / 10000000))
   \<and> (\<exists>w ops t. get_weights_and_dims one_two (Some one_two) None DimNone = Inr (w, ops)
       \<and> normalized_total w ops = Inr t
       \<and> (\<exists>v. element_at t [] = Fin v \<and> \<bar>v - 1\<bar> \<le> 1 / 10000000))
   \<and> snd (weighted_std one_two (Some zeros_a) DimNone 0) = Inl NormalizationError
   \<and> snd (weighted_corr one_two one_two (Some zeros_a) DimNone) = Inl NormalizationError"
proof -
  note t1 = weights_normalized [of one_two "Some ones_a" DimNone _ 0 one_two]
  note t2 = weights_normalized [of one_two None DimNone _ 0 one_two]
  note t3 = weights_normalized [of one_two "Some zeros_a" DimNone _ 0 one_two]
  have m: "\<exists>r. snd (weighted_mean one_two (Some ones_a) DimNone) = Inr r"
    by (simp add: operator_defs array_defs)
  have c: "\<exists>r. snd (weighted_cov one_two one_two None DimNone) = Inr r"
    by (simp add: operator_defs array_defs)
  have s1: "map_sum id (\<lambda>(w, ops). map_sum id sizes (normalized_total w ops))
             (get_weights_and_dims one_two None (Some ones_a) DimNone) = Inr (Inr [])"
    by (simp add: operator_defs array_defs)
  have s2: "map_sum id (\<lambda>(w, ops). map_sum id sizes (normalized_total w ops))
             (get_weights_and_dims one_two (Some one_two) None DimNone) = Inr (Inr [])"
    by (simp add: operator_defs array_defs)
  have v1: "\<exists>ops w t ks. resolve_dims one_two DimNone = Inr ops
          \<and> masked_weights one_two None (Some zeros_a) ops = Inr w
          \<and> normalized_total w ops = Inr t
          \<and> in_range ks t \<and> \<not> close_to_one (element_at t ks)"
    by (simp add: operator_defs array_defs)
  have v2: "\<exists>ops w t ks. resolve_dims one_two DimNone = Inr ops
          \<and> masked_weights one_two (Some one_two) (Some zeros_a) ops = Inr w
          \<and> normalized_total w ops = Inr t
          \<and> in_range ks t \<and> \<not> close_to_one (element_at t ks)"
    by (simp add: operator_defs array_defs)
  from m t1 obtain w ops t where a: "get_weights_and_dims one_two None (Some ones_a) DimNone
      = Inr (w, ops)" "normalized_total w ops = Inr t"
    "\<forall>ks. in_range ks t \<longrightarrow> (\<exists>v. element_at t ks = Fin v \<and> \<bar>v - 1\<bar> \<le> 1 / 10000000)"
    by blast
  from s1 a(1,2) have "in_range [] t" by (simp add: in_range_def)
  with a have A: "\<exists>w ops t. get_weights_and_dims one_two None (Some ones_a) DimNone = Inr (w, ops)
       \<and> normalized_total w ops = Inr t
       \<and> (\<exists>v. element_at t [] = Fin v \<and> \<bar>v - 1\<bar> \<le> 1 / 10000000)"
    by blast
  from c t2 obtain w' ops' t' where b: "get_weights_and_dims one_two (Some one_two) None DimNone
      = Inr (w', ops')" "normalized_total w' ops' = Inr t'"
    "\<forall>ks. in_range ks t' \<longrightarrow> (\<exists>v. element_at t' ks = Fin v \<and> \<bar>v - 1\<bar> \<le> 1 / 10000000)"
    by blast
  from s2 b(1,2) have "in_range [] t'" by (simp add: in_range_def)
  with b have B: "\<exists>w ops t. get_weights_and_dims one_two (Some one_two) None DimNone
         = Inr (w, ops)
       \<and> normalized_total w ops = Inr t
       \<and> (\<exists>v. element_at t [] = Fin v \<and> \<bar>v - 1\<bar> \<le> 1 / 10000000)"
    by blast
  from v1 t3 have C: "snd (weighted_std one_two (Some zeros_a) DimNone 0)
      = Inl NormalizationError" by blast
  from v2 t3 have D: "snd (weighted_corr one_two one_two (Some zeros_a) DimNone)
      = Inl NormalizationError" by blast
  from A B C D show ?thesis by blast
qed

section \<open>Partial reductions\<close>

text \<open>
  Claim C1 at the spec's own scenario array, reduced over the axis \<open>a\<close> with the weights
  \<open>[1, 1]\<close>: \<^verbatim>\<open>weighted_sum\<close> returns \<open>[4, 6]\<close> over the axis \<open>b\<close>, and
  \<^verbatim>\<open>weighted_mean\<close> raises the AssertionError of line 42 in its inner call of
  \<^verbatim>\<open>weighted_sum\<close>, since the masked weights it passes on have the shape of \<open>x\<close>, not the
  shape of the reduced axes.
\<close>

theorem mean_of_partial_reduction_raises:
  "snd (weighted_mean scenario_x (Some ones_a) (DimStr ''a'')) = Inl ShapeMismatch
   \<and> map_sum id (\<lambda>r. (dims r, shape r, element_at r [0], element_at r [1]))
        (snd (weighted_sum scenario_x (Some ones_a) (DimStr ''a'')))
      = Inr ([''b''], [2], Fin 4, Fin 6)"
  by (simp add: operator_defs array_defs)

text \<open>
  Claim C2 at its own scenario: with the weights omitted and \<^verbatim>\<open>dim="a"\<close> the default-weight
  warning is emitted and then the call raises the AssertionError of line 42; no mean is
  returned.
\<close>

theorem scenario_mean_raises:
  "weighted_mean scenario_x None (DimStr ''a'')
     = ([''Computing mean with equal weights for all data points''], Inl ShapeMismatch)"
  by (simp add: operator_defs array_defs)

section \<open>Metadata\<close>

lemma resolve_dims_ignores_metadata:
  "resolve_dims (x\<lparr>attrs := a, encoding := e\<rparr>) dim_spec = resolve_dims x dim_spec"
  by (cases dim_spec) (simp_all add: resolve_dims_def name_str_def cong: if_cong)

lemma dims_shape_ignores_metadata:
  "dims_shape (x\<lparr>attrs := a, encoding := e\<rparr>) ops = dims_shape x ops"
  by (simp add: dims_shape_def sizes_def)

lemma notnull_ignores_metadata: "notnull (x\<lparr>attrs := a, encoding := e\<rparr>) = notnull x"
  by (simp add: notnull_def da_map_def)

lemma masked_weights_ignores_metadata:
  "masked_weights (x\<lparr>attrs := a, encoding := e\<rparr>) y weights ops = masked_weights x y weights ops"
  unfolding masked_weights_def dims_shape_ignores_metadata notnull_ignores_metadata
  by (simp cong del: bindE_weak_cong cong: option.case_cong if_cong)

lemma resolver_ignores_metadata:
  "get_weights_and_dims (x\<lparr>attrs := a, encoding := e\<rparr>) y weights dim_spec
     = get_weights_and_dims x y weights dim_spec"
  unfolding get_weights_and_dims_def resolve_dims_ignores_metadata
    masked_weights_ignores_metadata ..

lemma bcast_ignores_metadata:
  "bcast f (x\<lparr>attrs := a, encoding := e\<rparr>) w = bcast f x w"
  "bcast f w (x\<lparr>attrs := a, encoding := e\<rparr>) = bcast f w x"
  by (simp_all add: bcast_def conflicting_def sizes_def size_of_def)

lemma update_attrs_twice:
  "update_attrs (update_attrs r a e) a' e' = update_attrs r a' e'"
  by (simp add: update_attrs_def)

lemma sum_ignores_metadata:
  "snd (weighted_sum (x\<lparr>attrs := a, encoding := e\<rparr>) weights dim_spec)
     = map_sum id (\<lambda>r. r\<lparr>attrs := a, encoding := e\<rparr>) (snd (weighted_sum x weights dim_spec))"
proof (cases "get_weights_and_dims x None weights dim_spec")
  case (Inl err)
  then show ?thesis
    by (simp add: snd_weighted_sum resolver_ignores_metadata)
next
  case (Inr p)
  obtain w ops where p: "p = (w, ops)" by (cases p)
  show ?thesis
  proof (cases "bcast fmul x w")
    case (Inl err)
    then show ?thesis
      by (simp add: snd_weighted_sum resolver_ignores_metadata Inr p bcast_ignores_metadata)
  next
    case xw: (Inr xw)
    show ?thesis
      by (cases "da_sum xw ops")
        (simp_all add: snd_weighted_sum resolver_ignores_metadata Inr p bcast_ignores_metadata
           xw update_attrs_def)
  qed
qed

lemma mean_ignores_metadata:
  "snd (weighted_mean (x\<lparr>attrs := a, encoding := e\<rparr>) weights dim_spec)
     = map_sum id (\<lambda>r. r\<lparr>attrs := a, encoding := e\<rparr>) (snd (weighted_mean x weights dim_spec))"
proof (cases "get_weights_and_dims x None weights dim_spec")
  case (Inl err)
  then show ?thesis
    by (simp add: snd_weighted_mean resolver_ignores_metadata)
next
  case (Inr p)
  obtain w ops where p: "p = (w, ops)" by (cases p)
  show ?thesis
  proof (cases "snd (weighted_sum x (Some w) (DimList ops))")
    case (Inl err)
    then show ?thesis
      by (simp add: snd_weighted_mean resolver_ignores_metadata Inr p sum_ignores_metadata)
  next
    case s: (Inr s)
    show ?thesis
    proof (cases "da_sum w ops")
      case (Inl err)
      then show ?thesis
        by (simp add: snd_weighted_mean resolver_ignores_metadata Inr p sum_ignores_metadata s)
    next
      case t: (Inr t)
      show ?thesis
        by (cases "bcast fdiv s t")
          (simp_all add: snd_weighted_mean resolver_ignores_metadata Inr p
             sum_ignores_metadata s t bcast_ignores_metadata update_attrs_def)
    qed
  qed
qed

lemma std_ignores_metadata:
  "snd (weighted_std (x\<lparr>attrs := a, encoding := e\<rparr>) weights dim_spec ddof)
     = map_sum id (\<lambda>r. r\<lparr>attrs := a, encoding := e\<rparr>)
         (snd (weighted_std x weights dim_spec ddof))"
proof (cases "get_weights_and_dims x None weights dim_spec")
  case (Inl err)
  then show ?thesis
    by (simp add: snd_weighted_std resolver_ignores_metadata)
next
  case (Inr p)
  obtain w ops where p: "p = (w, ops)" by (cases p)
  show ?thesis
  proof (cases "snd (weighted_mean x (Some w) (DimList ops))")
    case (Inl err)
    then show ?thesis
      by (simp add: snd_weighted_std resolver_ignores_metadata Inr p mean_ignores_metadata)
  next
    case m: (Inr m)
    have "bindE (bcast fsub x m) (\<lambda>dev.
            bindE (bcast fmul w (da_map fsquare dev)) (\<lambda>wdev.
            bindE (da_sum wdev ops) (\<lambda>num.
            bindE (da_sum w ops) (\<lambda>total.
            bindE (bcast fdiv num (da_map (\<lambda>v. fsub v (Fin (real_of_int ddof))) total)) (\<lambda>q.
            Inr (update_attrs (da_map fsqrt q) a e))))))
          = map_sum id (\<lambda>r. r\<lparr>attrs := a, encoding := e\<rparr>)
             (bindE (bcast fsub x m) (\<lambda>dev.
              bindE (bcast fmul w (da_map fsquare dev)) (\<lambda>wdev.
              bindE (da_sum wdev ops) (\<lambda>num.
              bindE (da_sum w ops) (\<lambda>total.
              bindE (bcast fdiv num (da_map (\<lambda>v. fsub v (Fin (real_of_int ddof))) total)) (\<lambda>q.
              Inr (update_attrs (da_map fsqrt q) (attrs x) (encoding x))))))))"
      by (simp add: bindE_def update_attrs_def cong del: bindE_weak_cong split: sum.splits)
    then show ?thesis
      by (simp add: snd_weighted_std resolver_ignores_metadata Inr p mean_ignores_metadata m
            bcast_ignores_metadata cong del: bindE_weak_cong)
  qed
qed

lemma single_array_results_carry_metadata:
  "snd (weighted_sum x weights dim_spec) = Inr r \<Longrightarrow> attrs r = attrs x \<and> encoding r = encoding x"
  "snd (weighted_mean x weights dim_spec) = Inr r \<Longrightarrow> attrs r = attrs x \<and> encoding r = encoding x"
  "snd (weighted_std x weights dim_spec ddof) = Inr r \<Longrightarrow>
     attrs r = attrs x \<and> encoding r = encoding x"
  by (auto simp: snd_weighted_sum snd_weighted_mean snd_weighted_std bindE_eq_Inr
        update_attrs_def)

lemma bcast_no_metadata: "bcast f a b = Inr r \<Longrightarrow> attrs r = [] \<and> encoding r = []"
  by (auto simp: bcast_def split: if_splits)

lemma two_array_results_carry_no_metadata:
  "snd (weighted_rmsd x y weights dim_spec) = Inr r \<Longrightarrow> attrs r = [] \<and> encoding r = []"
  "snd (weighted_cov x y weights dim_spec) = Inr r \<Longrightarrow> attrs r = [] \<and> encoding r = []"
  "snd (weighted_corr x y weights dim_spec) = Inr r \<Longrightarrow> attrs r = [] \<and> encoding r = []"
proof -
  show "snd (weighted_rmsd x y weights dim_spec) = Inr r \<Longrightarrow> attrs r = [] \<and> encoding r = []"
    by (auto simp: snd_weighted_rmsd bindE_eq_Inr da_map_def)
  show "snd (weighted_cov x y weights dim_spec) = Inr r \<Longrightarrow> attrs r = [] \<and> encoding r = []"
    by (auto simp: snd_weighted_cov bindE_eq_Inr
          dest!: single_array_results_carry_metadata(2) bcast_no_metadata)
  show "snd (weighted_corr x y weights dim_spec) = Inr r \<Longrightarrow> attrs r = [] \<and> encoding r = []"
    by (auto simp: snd_weighted_corr bindE_eq_Inr dest: bcast_no_metadata)
qed

text \<open>
  Claim C4, as amended. A result of \<^verbatim>\<open>weighted_sum\<close>, \<^verbatim>\<open>weighted_mean\<close> or
  \<^verbatim>\<open>weighted_std\<close> carries the attributes and the encoding of \<open>x\<close>, and the metadata of
  \<open>x\<close> has no other effect: with other metadata on \<open>x\<close> the call raises the same error or
  returns the same array, values, axes, shape and name, with that metadata instead. A
  result of \<^verbatim>\<open>weighted_rmsd\<close>, \<^verbatim>\<open>weighted_cov\<close> or \<^verbatim>\<open>weighted_corr\<close> carries no
  attributes and no encoding.
\<close>

theorem metadata_passthrough:
  "(snd (weighted_sum x weights dim_spec) = Inr r \<longrightarrow>
      attrs r = attrs x \<and> encoding r = encoding x)
   \<and> (snd (weighted_mean x weights dim_spec) = Inr r \<longrightarrow>
      attrs r = attrs x \<and> encoding r = encoding x)
   \<and> (snd (weighted_std x weights dim_spec ddof) = Inr r \<longrightarrow>
      attrs r = attrs x \<and> encoding r = encoding x)
   \<and> snd (weighted_sum (x\<lparr>attrs := a, encoding := e\<rparr>) weights dim_spec)
       = map_sum id (\<lambda>r. r\<lparr>attrs := a, encoding := e\<rparr>) (snd (weighted_sum x weights dim_spec))
   \<and> snd (weighted_mean (x\<lparr>attrs := a, encoding := e\<rparr>) weights dim_spec)
       = map_sum id (\<lambda>r. r\<lparr>attrs := a, encoding := e\<rparr>) (snd (weighted_mean x weights dim_spec))
   \<and> snd (weighted_std (x\<lparr>attrs := a, encoding := e\<rparr>) weights dim_spec ddof)
       = map_sum id (\<lambda>r. r\<lparr>attrs := a, encoding := e\<rparr>)
           (snd (weighted_std x weights dim_spec ddof))
   \<and> (snd (weighted_rmsd x y weights dim_spec) = Inr r \<longrightarrow> attrs r = [] \<and> encoding r = [])
   \<and> (snd (weighted_cov x y weights dim_spec) = Inr r \<longrightarrow> attrs r = [] \<and> encoding r = [])
   \<and> (snd (weighted_corr x y weights dim_spec) = Inr r \<longrightarrow> attrs r = [] \<and> encoding r = [])"
  by (auto dest: single_array_results_carry_metadata two_array_results_carry_no_metadata
        simp: sum_ignores_metadata mean_ignores_metadata std_ignores_metadata)

theorem metadata_passthrough_witness:
  "(\<exists>r. snd (weighted_std metres None DimNone 0) = Inr r
        \<and> attrs r = [(''units'', ''m'')] \<and> encoding r = [(''dtype'', ''float32'')])
   \<and> (\<exists>r. snd (weighted_cov metres metres None DimNone) = Inr r
        \<and> attrs r = [] \<and> encoding r = [])"
proof -
  have s: "\<exists>r. snd (weighted_std metres None DimNone 0) = Inr r"
    by (simp add: operator_defs array_defs)
  have c: "\<exists>r. snd (weighted_cov metres metres None DimNone) = Inr r"
    by (simp add: operator_defs array_defs)
  have m: "attrs metres = [(''units'', ''m'')]" "encoding metres = [(''dtype'', ''float32'')]"
    by (simp_all add: metres_def)
  from s obtain r where r: "snd (weighted_std metres None DimNone 0) = Inr r" ..
  from c obtain r' where r': "snd (weighted_cov metres metres None DimNone) = Inr r'" ..
  from r metadata_passthrough [of metres None DimNone r 0 _ _ metres]
  have "attrs r = attrs metres \<and> encoding r = encoding metres" by blast
  moreover from r' metadata_passthrough [of metres None DimNone r' 0 _ _ metres]
  have "attrs r' = [] \<and> encoding r' = []" by blast
  ultimately show ?thesis using r r' m by auto
qed

text \<open>
  Claim C4 as stated fails for the two-array operators: the array \<open>metres\<close> has an
  attribute and an encoding, and the results of \<^verbatim>\<open>weighted_rmsd\<close>, \<^verbatim>\<open>weighted_cov\<close> and
  \<^verbatim>\<open>weighted_corr\<close> on it have neither.
\<close>

theorem metadata_passthrough_counterexample:
  "attrs metres = [(''units'', ''m'')] \<and> encoding metres = [(''dtype'', ''float32'')]
   \<and> map_sum id (\<lambda>r. (attrs r, encoding r)) (snd (weighted_rmsd metres metres None DimNone))
     = Inr ([], [])
   \<and> map_sum id (\<lambda>r. (attrs r, encoding r)) (snd (weighted_cov metres metres None DimNone))
     = Inr ([], [])
   \<and> map_sum id (\<lambda>r. (attrs r, encoding r)) (snd (weighted_corr metres metres None DimNone))
     = Inr ([], [])"
  by (simp add: operator_defs array_defs)

section \<open>Non-finite outcomes\<close>

lemma positions_outside:
  "p \<in> set (positions dsz i) \<Longrightarrow> d \<notin> fst ` set dsz \<Longrightarrow> p d = i d"
proof (induction dsz arbitrary: i)
  case Nil
  then show ?case by simp
next
  case (Cons q dsz)
  obtain d' n where q: "q = (d', n)" by (cases q)
  from Cons.prems obtain k where k: "p \<in> set (positions dsz (i(d' := k)))"
    unfolding q by auto
  from Cons.prems(2) have d: "d \<notin> fst ` set dsz" and dd: "d \<noteq> d'"
    unfolding q by auto
  from Cons.IH [OF k d] dd show ?case by simp
qed

lemma positions_agree:
  "(\<And>d. d \<notin> fst ` set dsz \<Longrightarrow> i d = j d) \<Longrightarrow> positions dsz i = positions dsz j"
proof (induction dsz arbitrary: i j)
  case Nil
  then have "i = j" by (auto simp: fun_eq_iff)
  then show ?case by simp
next
  case (Cons q dsz)
  obtain d' n where q: "q = (d', n)" by (cases q)
  have "positions dsz (i(d' := k)) = positions dsz (j(d' := k))" for k
    by (rule Cons.IH) (use Cons.prems q in auto)
  then show ?case unfolding q by simp
qed

lemma positions_idem:
  "p \<in> set (positions dsz i) \<Longrightarrow> positions dsz p = positions dsz i"
  by (rule positions_agree) (simp add: positions_outside)

















section \<open>Reductions over all axes\<close>

lemma sizes_same_axes: "same_axes a x \<Longrightarrow> sizes a = sizes x"
  by (simp add: same_axes_def sizes_def)

lemma size_of_same_axes: "same_axes a x \<Longrightarrow> size_of a = size_of x"
  by (simp add: fun_eq_iff size_of_def sizes_same_axes)

lemma fst_sizes: "well_formed x \<Longrightarrow> map fst (sizes x) = dims x"
  by (simp add: well_formed_def sizes_def)

lemma snd_sizes: "well_formed x \<Longrightarrow> map snd (sizes x) = shape x"
  by (simp add: well_formed_def sizes_def)

lemma sizes_member: "p \<in> set (sizes x) \<Longrightarrow> fst p \<in> set (dims x)"
  by (metis prod.collapse set_zip_leftD sizes_def)

lemma size_of_member:
  assumes "well_formed x" and "(d, n) \<in> set (sizes x)"
  shows "size_of x d = n"
proof -
  from assms(1) have "distinct (map fst (sizes x))"
    by (simp add: fst_sizes) (simp add: well_formed_def)
  with assms(2) have "map_of (sizes x) d = Some n"
    by simp
  then show ?thesis by (simp add: size_of_def)
qed

lemma sized_dims: "well_formed x \<Longrightarrow> map (\<lambda>d. (d, size_of x d)) (dims x) = sizes x"
proof -
  assume wf: "well_formed x"
  have "map (\<lambda>p. (fst p, size_of x (fst p))) (sizes x) = map (\<lambda>p. p) (sizes x)"
    by (rule map_cong) (auto simp: size_of_member [OF wf])
  then have "map (\<lambda>d. (d, size_of x d)) (map fst (sizes x)) = sizes x"
    by (simp add: comp_def)
  with wf show ?thesis by (simp add: fst_sizes)
qed

lemma dims_shape_all: "well_formed x \<Longrightarrow> dims_shape x (dims x) = shape x"
proof -
  assume wf: "well_formed x"
  have "filter (\<lambda>(d, l). d \<in> set (dims x)) (sizes x) = sizes x"
    by (auto simp: filter_id_conv dest: sizes_member)
  with wf show ?thesis by (simp add: dims_shape_def snd_sizes)
qed

lemma no_extra_axes:
  "filter (\<lambda>d. d \<notin> set (dims x)) (dims x) = []"
  "filter (\<lambda>(d, n). d \<notin> set (dims x)) (sizes x) = []"
  by (auto simp: filter_empty_conv dest: sizes_member)

lemma not_conflicting_same:
  assumes "well_formed x" and "same_axes a x" and "same_axes b x"
  shows "\<not> conflicting a b"
  using assms
  by (auto simp: conflicting_def list_ex_iff sizes_same_axes size_of_same_axes size_of_member)

lemma not_conflicting_scalar: "dims s = [] \<Longrightarrow> \<not> conflicting a s"
  by (simp add: conflicting_def sizes_def)

lemma bcast_same:
  assumes "well_formed x" and "same_axes a x" and "same_axes b x"
  shows "\<exists>c. bcast f a b = Inr c \<and> same_axes c x \<and> elem c = (\<lambda>i. f (elem a i) (elem b i))
             \<and> attrs c = [] \<and> encoding c = []"
  using not_conflicting_same [OF assms] assms(2,3) no_extra_axes [of x]
  by (simp add: bcast_def same_axes_def sizes_def)

lemma bcast_scalar:
  assumes "dims s = []"
  shows "\<exists>c. bcast f a s = Inr c \<and> same_axes c a \<and> elem c = (\<lambda>i. f (elem a i) (elem s i))
             \<and> attrs c = [] \<and> encoding c = []"
  using not_conflicting_scalar [OF assms] assms
  by (simp add: bcast_def same_axes_def sizes_def)

lemma da_sum_all:
  assumes "well_formed x" and "same_axes a x"
  shows "\<exists>s. da_sum a (dims x) = Inr s \<and> dims s = [] \<and> shape s = []
             \<and> elem s = (\<lambda>i. nansum (map (elem a) (positions (sizes x) i)))"
proof -
  from assms have d: "dims a = dims x" and "distinct (dims x)"
    by (simp_all add: same_axes_def well_formed_def)
  moreover have "map (\<lambda>d. (d, size_of a d)) (dims x) = sizes x"
    using assms by (simp add: size_of_same_axes sized_dims)
  moreover have "filter (\<lambda>(d, n). d \<notin> set (dims x)) (sizes a) = []"
    using assms(2) no_extra_axes(2) [of x] by (simp add: sizes_same_axes)
  ultimately show ?thesis
    using no_extra_axes(1) [of x] by (simp add: da_sum_def)
qed

lemma same_axes_well_formed: "well_formed x \<Longrightarrow> same_axes a x \<Longrightarrow> well_formed a"
  by (simp add: well_formed_def same_axes_def)

lemma same_axes_refl [simp]: "same_axes a a"
  by (simp add: same_axes_def)

lemma same_axes_trans: "same_axes a b \<Longrightarrow> same_axes b c \<Longrightarrow> same_axes a c"
  by (simp add: same_axes_def)

lemma same_axes_sym: "same_axes a b \<Longrightarrow> same_axes b a"
  by (simp add: same_axes_def)

lemma scalar_sizes: "dims s = [] \<Longrightarrow> sizes s = []"
  by (simp add: sizes_def)

lemma allclose_one_scalar: "dims s = [] \<Longrightarrow> allclose_one s = close_to_one (elem s (\<lambda>d. 0))"
  by (simp add: allclose_one_def scalar_sizes)

text \<open>The resolver when all axes are reduced and the weights have the axes of \<open>x\<close>.\<close>

lemma masked_weights_all:
  assumes wf: "well_formed x" and w: "same_axes w x"
    and y: "\<And>y'. y = Some y' \<Longrightarrow> same_axes y' x"
  shows "\<exists>mw. masked_weights x y (Some w) (dims x) = Inr mw \<and> same_axes mw x
              \<and> elem mw = masked_fn x y w"
proof -
  have sw: "shape w = dims_shape x (dims x)"
    using wf w by (simp add: dims_shape_all same_axes_def)
  have nx: "same_axes (notnull x) x"
    by (simp add: same_axes_def notnull_def da_map_def)
  obtain valid where valid:
    "(case y of Some y' \<Rightarrow> if shape x = shape y' then bcast (\<and>) (notnull x) (notnull y')
                           else Inl ShapeMismatch
              | None \<Rightarrow> Inr (notnull x)) = Inr valid"
    and va: "same_axes valid x"
    and ve: "elem valid = (\<lambda>i. \<not> isnan (elem x i)
                \<and> (case y of None \<Rightarrow> True | Some y' \<Rightarrow> \<not> isnan (elem y' i)))"
  proof (cases y)
    case None
    show ?thesis
      by (rule that [of "notnull x"]) (simp_all add: None nx, simp add: notnull_def da_map_def)
  next
    case (Some y')
    from y [OF Some] have ya: "same_axes y' x" .
    then have ny: "same_axes (notnull y') x"
      by (simp add: same_axes_def notnull_def da_map_def)
    from bcast_same [OF wf nx ny, of "(\<and>)"] obtain c where
      c: "bcast (\<and>) (notnull x) (notnull y') = Inr c" "same_axes c x"
      "elem c = (\<lambda>i. elem (notnull x) i \<and> elem (notnull y') i)"
      by blast
    show ?thesis
      by (rule that [of c]) (use c ya in \<open>simp_all add: Some same_axes_def notnull_def da_map_def\<close>)
  qed
  from bcast_same [OF wf w va, of "\<lambda>v ok. if ok then v else NaN"] obtain c where
    c: "bcast (\<lambda>v ok. if ok then v else NaN) w valid = Inr c" "same_axes c x"
    "elem c = (\<lambda>i. if elem valid i then elem w i else NaN)"
    by blast
  have "masked_weights x y (Some w) (dims x) = Inr (c\<lparr>attrs := attrs w\<rparr>)"
    by (simp add: masked_weights_def sw valid da_where_def c)
  moreover have "same_axes (c\<lparr>attrs := attrs w\<rparr>) x"
    using c(2) by (simp add: same_axes_def)
  moreover have "elem (c\<lparr>attrs := attrs w\<rparr>) = masked_fn x y w"
    by (simp add: c(3) ve masked_fn_def fun_eq_iff)
  ultimately show ?thesis by blast
qed

lemma normalized_total_all:
  assumes wf: "well_formed x" and mw: "same_axes mw x"
  shows "\<exists>t. normalized_total mw (dims x) = Inr t \<and> dims t = []
             \<and> elem t = check_of (sizes x) (elem mw)"
proof -
  from da_sum_all [OF wf mw] obtain tot where
    tot: "da_sum mw (dims x) = Inr tot" "dims tot = []"
    "elem tot = (\<lambda>i. nansum (map (elem mw) (positions (sizes x) i)))"
    by blast
  from bcast_scalar [OF tot(2), of fdiv mw] obtain q where
    q: "bcast fdiv mw tot = Inr q" "same_axes q mw"
    "elem q = (\<lambda>i. fdiv (elem mw i) (elem tot i))"
    by blast
  from da_sum_all [OF wf same_axes_trans [OF q(2) mw]] obtain t where
    t: "da_sum q (dims x) = Inr t" "dims t = []"
    "elem t = (\<lambda>i. nansum (map (elem q) (positions (sizes x) i)))"
    by blast
  have "normalized_total mw (dims x) = Inr t"
    by (simp add: normalized_total_def tot(1) q(1) t(1))
  moreover have "elem t = check_of (sizes x) (elem mw)"
    by (simp add: t(3) q(3) tot(3) check_of_def total_of_def fun_eq_iff)
  ultimately show ?thesis using t(2) by blast
qed

lemma resolver_all:
  assumes wf: "well_formed x" and w: "same_axes w x"
    and y: "\<And>y'. y = Some y' \<Longrightarrow> same_axes y' x"
    and r: "resolve_dims x dim_spec = Inr (dims x)"
  shows "\<exists>mw. same_axes mw x \<and> elem mw = masked_fn x y w
           \<and> get_weights_and_dims x y (Some w) dim_spec
               = (if close_to_one (check_of (sizes x) (masked_fn x y w) (\<lambda>d. 0))
                  then Inr (mw, dims x) else Inl NormalizationError)"
proof -
  from masked_weights_all [OF wf w y] obtain mw where
    mw: "masked_weights x y (Some w) (dims x) = Inr mw" "same_axes mw x"
    "elem mw = masked_fn x y w"
    by blast
  from normalized_total_all [OF wf mw(2)] obtain t where
    t: "normalized_total mw (dims x) = Inr t" "dims t = []"
    "elem t = check_of (sizes x) (elem mw)"
    by blast
  have "get_weights_and_dims x y (Some w) dim_spec
          = (if close_to_one (check_of (sizes x) (masked_fn x y w) (\<lambda>d. 0))
             then Inr (mw, dims x) else Inl NormalizationError)"
    by (simp add: get_weights_and_dims_def r mw(1) t(1) allclose_one_scalar [OF t(2)] t(3) mw(3))
  with mw show ?thesis by blast
qed

lemma resolve_dims_all: "dims x \<noteq> [] \<Longrightarrow> resolve_dims x (DimList (dims x)) = Inr (dims x)"
  by (simp add: resolve_dims_def)

lemma masked_fn_again:
  assumes "elem mw = masked_fn x y w"
  shows "masked_fn x None mw = masked_fn x y w"
  by (auto simp: masked_fn_def assms fun_eq_iff)

lemma masked_fn_again_y:
  assumes "elem mw = masked_fn x (Some y) w"
  shows "masked_fn y None mw = masked_fn x (Some y) w"
    and "masked_fn x (Some y) mw = masked_fn x (Some y) w"
    and "masked_fn x (Some x) mw = masked_fn x (Some y) w"
    and "masked_fn y (Some y) mw = masked_fn x (Some y) w"
  by (auto simp: masked_fn_def assms fun_eq_iff)

text \<open>\<^verbatim>\<open>weighted_sum\<close> and \<^verbatim>\<open>weighted_mean\<close> over all axes.\<close>

lemma weighted_sum_all:
  assumes wf: "well_formed x" and w: "same_axes w x"
    and r: "resolve_dims x dim_spec = Inr (dims x)"
  shows "\<exists>s. dims s = [] \<and> shape s = []
           \<and> elem s = wsum_of (sizes x) (elem x) (masked_fn x None w)
           \<and> attrs s = attrs x \<and> encoding s = encoding x
           \<and> snd (weighted_sum x (Some w) dim_spec)
               = (if close_to_one (check_of (sizes x) (masked_fn x None w) (\<lambda>d. 0))
                  then Inr s else Inl NormalizationError)"
proof -
  from resolver_all [OF wf w _ r, of None] obtain mw where
    mw: "same_axes mw x" "elem mw = masked_fn x None w"
    "get_weights_and_dims x None (Some w) dim_spec
       = (if close_to_one (check_of (sizes x) (masked_fn x None w) (\<lambda>d. 0))
          then Inr (mw, dims x) else Inl NormalizationError)"
    by auto
  from bcast_same [OF wf _ mw(1), of x fmul] obtain xw where
    xw: "bcast fmul x mw = Inr xw" "same_axes xw x"
    "elem xw = (\<lambda>i. fmul (elem x i) (elem mw i))"
    by auto
  from da_sum_all [OF wf xw(2)] obtain s where
    s: "da_sum xw (dims x) = Inr s" "dims s = []" "shape s = []"
    "elem s = (\<lambda>i. nansum (map (elem xw) (positions (sizes x) i)))"
    by blast
  let ?r = "update_attrs s (attrs x) (encoding x)"
  have "snd (weighted_sum x (Some w) dim_spec)
          = (if close_to_one (check_of (sizes x) (masked_fn x None w) (\<lambda>d. 0))
             then Inr ?r else Inl NormalizationError)"
    by (simp add: snd_weighted_sum mw(3) xw(1) s(1))
  moreover have "elem ?r = wsum_of (sizes x) (elem x) (masked_fn x None w)"
    by (simp add: update_attrs_def s(4) xw(3) mw(2) wsum_of_def fun_eq_iff)
  moreover have "dims ?r = []" "shape ?r = []" "attrs ?r = attrs x" "encoding ?r = encoding x"
    by (simp_all add: update_attrs_def s)
  ultimately show ?thesis by blast
qed

lemma weighted_mean_all:
  assumes wf: "well_formed x" and w: "same_axes w x"
    and r: "resolve_dims x dim_spec = Inr (dims x)"
  shows "\<exists>m. dims m = [] \<and> shape m = []
           \<and> elem m = mean_of (sizes x) (elem x) (masked_fn x None w)
           \<and> attrs m = attrs x \<and> encoding m = encoding x
           \<and> snd (weighted_mean x (Some w) dim_spec)
               = (if close_to_one (check_of (sizes x) (masked_fn x None w) (\<lambda>d. 0))
                  then Inr m else Inl NormalizationError)"
proof -
  from r have ne: "dims x \<noteq> []"
    by (auto simp: resolve_dims_def Let_def split: if_splits)
  from resolver_all [OF wf w _ r, of None] obtain mw where
    mw: "same_axes mw x" "elem mw = masked_fn x None w"
    "get_weights_and_dims x None (Some w) dim_spec
       = (if close_to_one (check_of (sizes x) (masked_fn x None w) (\<lambda>d. 0))
          then Inr (mw, dims x) else Inl NormalizationError)"
    by auto
  note again = masked_fn_again [OF mw(2)]
  from weighted_sum_all [OF wf mw(1) resolve_dims_all [OF ne]] obtain s where
    s: "dims s = []" "elem s = wsum_of (sizes x) (elem x) (masked_fn x None w)"
    "shape s = []"
    "snd (weighted_sum x (Some mw) (DimList (dims x)))
       = (if close_to_one (check_of (sizes x) (masked_fn x None w) (\<lambda>d. 0))
          then Inr s else Inl NormalizationError)"
    by (auto simp: again)
  from da_sum_all [OF wf mw(1)] obtain tot where
    tot: "da_sum mw (dims x) = Inr tot" "dims tot = []" "shape tot = []"
    "elem tot = (\<lambda>i. nansum (map (elem mw) (positions (sizes x) i)))"
    by blast
  from bcast_scalar [OF tot(2), of fdiv s] obtain q where
    q: "bcast fdiv s tot = Inr q" "same_axes q s"
    "elem q = (\<lambda>i. fdiv (elem s i) (elem tot i))"
    by blast
  let ?r = "update_attrs q (attrs x) (encoding x)"
  have "snd (weighted_mean x (Some w) dim_spec)
          = (if close_to_one (check_of (sizes x) (masked_fn x None w) (\<lambda>d. 0))
             then Inr ?r else Inl NormalizationError)"
    by (simp add: snd_weighted_mean mw(3) s(4) tot(1) q(1))
  moreover have "elem ?r = mean_of (sizes x) (elem x) (masked_fn x None w)"
    by (simp add: update_attrs_def q(3) s(2) tot(4) mw(2) mean_of_def total_of_def fun_eq_iff)
  moreover have "dims ?r = []" "shape ?r = []" "attrs ?r = attrs x" "encoding ?r = encoding x"
    using q(2) s(1,3) by (simp_all add: update_attrs_def same_axes_def)
  ultimately show ?thesis by blast
qed

section \<open>Missing values against removed positions\<close>

lemma fadd_zero_left [simp]: "fadd (Fin 0) v = v"
  by (cases v) simp_all

lemma nansum_filter:
  "nansum (map h (filter Q xs)) = nansum (map (\<lambda>k. if Q k then h k else NaN) xs)"
  by (induction xs) simp_all

lemma nansum_kept:
  "nansum (map (\<lambda>k'. h (kept S n ! k')) [0..<length (kept S n)])
     = nansum (map (\<lambda>k. if k \<in> S then NaN else h k) [0..<n])"
proof -
  have "map (\<lambda>k'. h (kept S n ! k')) [0..<length (kept S n)]
          = map h (map (\<lambda>k'. kept S n ! k') [0..<length (kept S n)])"
    by simp
  also have "\<dots> = map h (kept S n)"
    by (simp only: map_nth)
  finally have "nansum (map (\<lambda>k'. h (kept S n ! k')) [0..<length (kept S n)])
                  = nansum (map h (filter (\<lambda>k. k \<notin> S) [0..<n]))"
    by (simp add: kept_def)
  also have "\<dots> = nansum (map (\<lambda>k. if k \<notin> S then h k else NaN) [0..<n])"
    by (rule nansum_filter)
  also have "(\<lambda>k. if k \<notin> S then h k else NaN) = (\<lambda>k. if k \<in> S then NaN else h k)"
    by auto
  finally show ?thesis .
qed

lemma positions_one_axis: "positions [(d, n)] i = map (\<lambda>k. i(d := k)) [0..<n]"
  by (simp add: concat_map_singleton)

lemma positions_one_axis_upd: "positions [(d, n)] (i(d := k)) = positions [(d, n)] i"
  by (simp add: positions_one_axis)

lemma element_at_scalar: "element_at r [] = elem r (\<lambda>d. 0)"
  by (simp add: element_at_def place_def)

lemma one_axis_well_formed: "dims x = [d] \<Longrightarrow> shape x = [n] \<Longrightarrow> well_formed x"
  by (simp add: well_formed_def)

lemma one_axis_resolves: "dims x = [d] \<Longrightarrow> resolve_dims x DimNone = Inr (dims x)"
  by (simp add: resolve_dims_def)

text \<open>The three scalars of a reduction of a one-axis array, as sums over its positions.\<close>

lemma one_axis_total:
  "total_of [(d, n)] M (i(d := k)) = nansum (map (\<lambda>k. M (i(d := k))) [0..<n])"
  "total_of [(d, n)] M i = nansum (map (\<lambda>k. M (i(d := k))) [0..<n])"
  by (simp_all add: total_of_def positions_one_axis comp_def)

lemma one_axis_check:
  "check_of [(d, n)] M i
     = nansum (map (\<lambda>k. fdiv (M (i(d := k))) (total_of [(d, n)] M i)) [0..<n])"
  by (simp add: check_of_def positions_one_axis comp_def one_axis_total)

lemma one_axis_wsum:
  "wsum_of [(d, n)] X M i = nansum (map (\<lambda>k. fmul (X (i(d := k))) (M (i(d := k)))) [0..<n])"
  by (simp add: wsum_of_def positions_one_axis comp_def)

lemma removal_is_masking:
  fixes S :: "nat set" and n :: nat
  assumes x: "dims x = [d]" "shape x = [n]" and w: "dims w = [d]" "shape w = [n]"
  defines "M1 \<equiv> masked_fn (set_missing d S x) None w"
    and "M2 \<equiv> masked_fn (drop_positions d S x) None (drop_positions d S w)"
    and "m \<equiv> length (kept S n)"
  shows "total_of [(d, m)] M2 i = total_of [(d, n)] M1 i"
    and "check_of [(d, m)] M2 i = check_of [(d, n)] M1 i"
    and "wsum_of [(d, m)] (elem (drop_positions d S x)) M2 i
           = wsum_of [(d, n)] (elem (set_missing d S x)) M1 i"
proof -
  define g where "g k = (if isnan (elem x (i(d := k))) then NaN else elem w (i(d := k)))" for k
  have m1: "M1 (i(d := k)) = (if k \<in> S then NaN else g k)" for k
    by (simp add: M1_def masked_fn_def set_missing_def g_def)
  have m2: "M2 (i(d := k')) = g (kept S n ! k')" for k'
    by (simp add: M2_def masked_fn_def drop_positions_def g_def x w)
  show t: "total_of [(d, m)] M2 i = total_of [(d, n)] M1 i"
    unfolding one_axis_total m1 m2 m_def by (rule nansum_kept)
  have "check_of [(d, m)] M2 i
          = nansum (map (\<lambda>k'. fdiv (g (kept S n ! k')) (total_of [(d, n)] M1 i))
              [0..<length (kept S n)])"
    unfolding one_axis_check t m2 by (simp add: m_def)
  also have "\<dots> = nansum (map (\<lambda>k. if k \<in> S then NaN
                                   else fdiv (g k) (total_of [(d, n)] M1 i)) [0..<n])"
    by (rule nansum_kept)
  also have "\<dots> = check_of [(d, n)] M1 i"
    unfolding one_axis_check m1
    by (rule arg_cong [where f = nansum], rule map_cong) simp_all
  finally show "check_of [(d, m)] M2 i = check_of [(d, n)] M1 i" .
  have "wsum_of [(d, m)] (elem (drop_positions d S x)) M2 i
          = nansum (map (\<lambda>k'. fmul (elem x (i(d := kept S n ! k'))) (g (kept S n ! k')))
              [0..<length (kept S n)])"
    unfolding one_axis_wsum m2 by (simp add: m_def drop_positions_def x)
  also have "\<dots> = nansum (map (\<lambda>k. if k \<in> S then NaN
                                   else fmul (elem x (i(d := k))) (g k)) [0..<n])"
    by (rule nansum_kept [where h = "\<lambda>k. fmul (elem x (i(d := k))) (g k)"])
  also have "\<dots> = wsum_of [(d, n)] (elem (set_missing d S x)) M1 i"
    unfolding one_axis_wsum m1
    by (rule arg_cong [where f = nansum], rule map_cong) (simp_all add: set_missing_def)
  finally show "wsum_of [(d, m)] (elem (drop_positions d S x)) M2 i
           = wsum_of [(d, n)] (elem (set_missing d S x)) M1 i" .
qed

text \<open>
  Claim C8. For an array \<open>x\<close> and weights \<open>w\<close> along one axis of the same length and any
  set \<open>S\<close> of positions: \<^verbatim>\<open>weighted_mean\<close> of \<open>x\<close> with the elements at \<open>S\<close> set to NaN,
  under the weights \<open>w\<close>, and \<^verbatim>\<open>weighted_mean\<close> of \<open>x\<close> and \<open>w\<close> with the positions \<open>S\<close>
  removed from both, raise the same error or return results of the same axes, shape and
  value.
\<close>

theorem masking_is_exclusion:
  assumes "dims x = [d]" and "shape x = [n]" and "dims w = [d]" and "shape w = [n]"
  shows "map_sum id (\<lambda>r. (dims r, shape r, element_at r []))
           (snd (weighted_mean (set_missing d S x) (Some w) DimNone))
         = map_sum id (\<lambda>r. (dims r, shape r, element_at r []))
             (snd (weighted_mean (drop_positions d S x) (Some (drop_positions d S w)) DimNone))"
proof -
  let ?x1 = "set_missing d S x" and ?x2 = "drop_positions d S x"
    and ?w2 = "drop_positions d S w"
  let ?m = "length (kept S n)"
  have a1: "dims ?x1 = [d]" "shape ?x1 = [n]" "sizes ?x1 = [(d, n)]"
    using assms by (simp_all add: set_missing_def sizes_def)
  have a2: "dims ?x2 = [d]" "shape ?x2 = [?m]" "sizes ?x2 = [(d, ?m)]"
    using assms by (simp_all add: drop_positions_def sizes_def)
  have w1: "same_axes w ?x1"
    using assms a1 by (simp add: same_axes_def)
  have w2: "same_axes ?w2 ?x2"
    using assms a2 by (simp add: same_axes_def) (simp add: drop_positions_def)
  from weighted_mean_all [OF one_axis_well_formed [OF a1(1,2)] w1 one_axis_resolves [OF a1(1)]]
  obtain m1 where m1: "dims m1 = []" "shape m1 = []"
    "elem m1 = mean_of [(d, n)] (elem ?x1) (masked_fn ?x1 None w)"
    "snd (weighted_mean ?x1 (Some w) DimNone)
       = (if close_to_one (check_of [(d, n)] (masked_fn ?x1 None w) (\<lambda>d. 0))
          then Inr m1 else Inl NormalizationError)"
    unfolding a1 by blast
  from weighted_mean_all [OF one_axis_well_formed [OF a2(1,2)] w2 one_axis_resolves [OF a2(1)]]
  obtain m2 where m2: "dims m2 = []" "shape m2 = []"
    "elem m2 = mean_of [(d, ?m)] (elem ?x2) (masked_fn ?x2 None ?w2)"
    "snd (weighted_mean ?x2 (Some ?w2) DimNone)
       = (if close_to_one (check_of [(d, ?m)] (masked_fn ?x2 None ?w2) (\<lambda>d. 0))
          then Inr m2 else Inl NormalizationError)"
    unfolding a2 by blast
  note eq = removal_is_masking [OF assms, of S]
  have "elem m2 (\<lambda>d. 0) = elem m1 (\<lambda>d. 0)"
    by (simp add: m1(3) m2(3) mean_of_def eq)
  then show ?thesis
    by (simp add: m1 m2 eq element_at_scalar)
qed

theorem masking_is_exclusion_witness:
  "map_sum id (\<lambda>r. (dims r, shape r, element_at r []))
     (snd (weighted_mean (set_missing ''a'' {1} one_two_three) (Some weights_153) DimNone))
   = Inr ([], [], Fin (5 / 2))
   \<and> map_sum id (\<lambda>r. (dims r, shape r, element_at r []))
       (snd (weighted_mean (drop_positions ''a'' {1} one_two_three)
          (Some (drop_positions ''a'' {1} weights_153)) DimNone))
     = Inr ([], [], Fin (5 / 2))"
proof -
  have e: "map_sum id (\<lambda>r. (dims r, shape r, element_at r []))
     (snd (weighted_mean (set_missing ''a'' {1} one_two_three) (Some weights_153) DimNone))
   = Inr ([], [], Fin (5 / 2))"
    by (simp add: operator_defs array_defs set_missing_def)
  have "dims one_two_three = [''a'']" "shape one_two_three = [3]"
    "dims weights_153 = [''a'']" "shape weights_153 = [3]"
    by (simp_all add: array_defs)
  from masking_is_exclusion [OF this, of "{1}"] e show ?thesis by simp
qed

section \<open>Covariance and correlation over all axes\<close>

lemma default_weights_all:
  assumes "well_formed x" and "resolve_dims x dim_spec = Inr (dims x)"
  shows "get_weights_and_dims x y None dim_spec
           = get_weights_and_dims x y (Some (ones_like x)) dim_spec"
proof -
  have "masked_weights x y None (dims x) = masked_weights x y (Some (ones_like x)) (dims x)"
    using assms(1)
    by (simp add: masked_weights_def dims_shape_all ones_array_def ones_like_def well_formed_def)
  then show ?thesis
    by (simp add: get_weights_and_dims_def assms(2))
qed

lemma same_axes_ones_like: "same_axes (ones_like x) x"
  by (simp add: same_axes_def ones_like_def)

lemma resolve_dims_same_axes:
  assumes "same_axes a x" and "dims x \<noteq> []"
  shows "resolve_dims a (DimList (dims x)) = Inr (dims a)"
  using assms by (simp add: resolve_dims_def same_axes_def)

lemma weighted_cov_all:
  assumes wf: "well_formed x" and y: "same_axes y x" and w: "same_axes w x"
    and r: "resolve_dims x dim_spec = Inr (dims x)"
  defines "M \<equiv> masked_fn x (Some y) w"
  defines "DXY \<equiv> (\<lambda>i. fmul (dev_of (sizes x) (elem x) M i) (dev_of (sizes x) (elem y) M i))"
  defines "M' \<equiv> (\<lambda>i. if isnan (DXY i) then NaN else M i)"
  shows "\<exists>c. dims c = [] \<and> shape c = [] \<and> elem c = mean_of (sizes x) DXY M'
           \<and> snd (weighted_cov x y (Some w) dim_spec)
               = (if close_to_one (check_of (sizes x) M (\<lambda>d. 0))
                     \<and> close_to_one (check_of (sizes x) M' (\<lambda>d. 0))
                  then Inr c else Inl NormalizationError)"
proof -
  from r have ne: "dims x \<noteq> []"
    by (auto simp: resolve_dims_def Let_def split: if_splits)
  have wfy: "well_formed y"
    using wf y by (rule same_axes_well_formed)
  have szy: "sizes y = sizes x"
    using y by (rule sizes_same_axes)
  have ys: "\<And>y'. Some y = Some y' \<Longrightarrow> same_axes y' x"
    using y by simp
  from resolver_all [OF wf w ys r] obtain mw where
    mw0: "same_axes mw x" "elem mw = masked_fn x (Some y) w"
    "get_weights_and_dims x (Some y) (Some w) dim_spec
       = (if close_to_one (check_of (sizes x) (masked_fn x (Some y) w) (\<lambda>d. 0))
          then Inr (mw, dims x) else Inl NormalizationError)"
    by blast
  note mw = mw0 [folded M_def]
  have mwy: "same_axes mw y"
    using mw(1) y by (simp add: same_axes_def)
  have again: "masked_fn x None mw = M" "masked_fn y None mw = M"
    unfolding M_def
    by (rule masked_fn_again [OF mw0(2)], rule masked_fn_again_y(1) [OF mw0(2)])
  from weighted_mean_all [OF wf mw(1) resolve_dims_all [OF ne]] obtain mx where
    mx0: "dims mx = []" "elem mx = mean_of (sizes x) (elem x) (masked_fn x None mw)"
    "snd (weighted_mean x (Some mw) (DimList (dims x)))
       = (if close_to_one (check_of (sizes x) (masked_fn x None mw) (\<lambda>d. 0))
          then Inr mx else Inl NormalizationError)"
    by blast
  note mx = mx0 [unfolded again]
  from weighted_mean_all [OF wfy mwy resolve_dims_same_axes [OF y ne]] obtain my where
    my0: "dims my = []" "elem my = mean_of (sizes y) (elem y) (masked_fn y None mw)"
    "snd (weighted_mean y (Some mw) (DimList (dims x)))
       = (if close_to_one (check_of (sizes y) (masked_fn y None mw) (\<lambda>d. 0))
          then Inr my else Inl NormalizationError)"
    by blast
  note my = my0 [unfolded again szy]
  from bcast_scalar [OF mx(1), of fsub x] obtain dx where
    dx: "bcast fsub x mx = Inr dx" "same_axes dx x"
    "elem dx = (\<lambda>i. fsub (elem x i) (elem mx i))"
    by blast
  from bcast_scalar [OF my(1), of fsub y] obtain dy where
    dy: "bcast fsub y my = Inr dy" "same_axes dy y"
    "elem dy = (\<lambda>i. fsub (elem y i) (elem my i))"
    by blast
  from bcast_same [OF wf dx(2) same_axes_trans [OF dy(2) y], of fmul] obtain dxy where
    dxy: "bcast fmul dx dy = Inr dxy" "same_axes dxy x"
    "elem dxy = (\<lambda>i. fmul (elem dx i) (elem dy i))"
    by blast
  have edxy: "elem dxy = DXY"
    unfolding dxy(3) dx(3) dy(3) mx(2) my(2) DXY_def dev_of_def ..
  have m': "masked_fn dxy None mw = M'"
    unfolding masked_fn_def M'_def edxy mw(2) by (auto simp: fun_eq_iff)
  have wd: "well_formed dxy"
    using wf dxy(2) by (rule same_axes_well_formed)
  have md: "same_axes mw dxy"
    using mw(1) dxy(2) by (simp add: same_axes_def)
  have sd: "sizes dxy = sizes x"
    using dxy(2) by (rule sizes_same_axes)
  from weighted_mean_all [OF wd md resolve_dims_same_axes [OF dxy(2) ne]] obtain c where
    c0: "dims c = []" "shape c = []"
    "elem c = mean_of (sizes dxy) (elem dxy) (masked_fn dxy None mw)"
    "snd (weighted_mean dxy (Some mw) (DimList (dims x)))
       = (if close_to_one (check_of (sizes dxy) (masked_fn dxy None mw) (\<lambda>d. 0))
          then Inr c else Inl NormalizationError)"
    by blast
  note c = c0 [unfolded m' sd edxy]
  have "snd (weighted_cov x y (Some w) dim_spec)
          = (if close_to_one (check_of (sizes x) M (\<lambda>d. 0))
                \<and> close_to_one (check_of (sizes x) M' (\<lambda>d. 0))
             then Inr c else Inl NormalizationError)"
  proof (cases "close_to_one (check_of (sizes x) M (\<lambda>d. 0))")
    case True
    then show ?thesis
      by (simp add: snd_weighted_cov mw(3) mx(3) my(3) dx(1) dy(1) dxy(1) c(4))
  next
    case False
    then show ?thesis
      by (simp add: snd_weighted_cov mw(3))
  qed
  with c(1-3) show ?thesis by blast
qed

lemma weighted_corr_self_all:
  assumes wf: "well_formed x" and r: "resolve_dims x dim_spec = Inr (dims x)"
  defines "M \<equiv> masked_fn x (Some x) (ones_like x)"
  defines "DXY \<equiv> (\<lambda>i. fmul (dev_of (sizes x) (elem x) M i) (dev_of (sizes x) (elem x) M i))"
  defines "M' \<equiv> (\<lambda>i. if isnan (DXY i) then NaN else M i)"
  defines "C \<equiv> mean_of (sizes x) DXY M'"
  shows "\<exists>c. dims c = [] \<and> shape c = []
           \<and> elem c = (\<lambda>i. fdiv (C i) (fsqrt (fmul (C i) (C i))))
           \<and> snd (weighted_corr x x None dim_spec)
               = (if close_to_one (check_of (sizes x) M (\<lambda>d. 0))
                     \<and> close_to_one (check_of (sizes x) M' (\<lambda>d. 0))
                  then Inr c else Inl NormalizationError)"
proof -
  from r have ne: "dims x \<noteq> []"
    by (auto simp: resolve_dims_def Let_def split: if_splits)
  have xs: "\<And>y'. Some x = Some y' \<Longrightarrow> same_axes y' x"
    by simp
  from resolver_all [OF wf same_axes_ones_like xs r] obtain mw where
    mw0: "same_axes mw x" "elem mw = masked_fn x (Some x) (ones_like x)"
    "get_weights_and_dims x (Some x) (Some (ones_like x)) dim_spec
       = (if close_to_one (check_of (sizes x) (masked_fn x (Some x) (ones_like x)) (\<lambda>d. 0))
          then Inr (mw, dims x) else Inl NormalizationError)"
    by blast
  note mw = mw0 [folded M_def]
  have g: "get_weights_and_dims x (Some x) None dim_spec
       = (if close_to_one (check_of (sizes x) M (\<lambda>d. 0))
          then Inr (mw, dims x) else Inl NormalizationError)"
    unfolding default_weights_all [OF wf r] by (rule mw(3))
  have again: "masked_fn x (Some x) mw = M"
    unfolding M_def by (rule masked_fn_again_y(3) [OF mw0(2)])
  from weighted_cov_all [OF wf same_axes_refl mw(1) resolve_dims_all [OF ne]] obtain c where
    c0: "dims c = []" "shape c = []"
    "elem c = mean_of (sizes x)
       (\<lambda>i. fmul (dev_of (sizes x) (elem x) (masked_fn x (Some x) mw) i)
                 (dev_of (sizes x) (elem x) (masked_fn x (Some x) mw) i))
       (\<lambda>i. if isnan (fmul (dev_of (sizes x) (elem x) (masked_fn x (Some x) mw) i)
                           (dev_of (sizes x) (elem x) (masked_fn x (Some x) mw) i))
             then NaN else masked_fn x (Some x) mw i)"
    "snd (weighted_cov x x (Some mw) (DimList (dims x)))
       = (if close_to_one (check_of (sizes x) (masked_fn x (Some x) mw) (\<lambda>d. 0))
             \<and> close_to_one (check_of (sizes x)
                  (\<lambda>i. if isnan (fmul (dev_of (sizes x) (elem x) (masked_fn x (Some x) mw) i)
                                      (dev_of (sizes x) (elem x) (masked_fn x (Some x) mw) i))
                        then NaN else masked_fn x (Some x) mw i) (\<lambda>d. 0))
          then Inr c else Inl NormalizationError)"
    by blast
  note c1 = c0 [unfolded again]
  have c: "elem c = C"
    "snd (weighted_cov x x (Some mw) (DimList (dims x)))
       = (if close_to_one (check_of (sizes x) M (\<lambda>d. 0))
             \<and> close_to_one (check_of (sizes x) M' (\<lambda>d. 0))
          then Inr c else Inl NormalizationError)"
    unfolding C_def M'_def DXY_def by (rule c1)+
  from bcast_scalar [OF c0(1), of fmul c] obtain p where
    p: "bcast fmul c c = Inr p" "same_axes p c" "elem p = (\<lambda>i. fmul (elem c i) (elem c i))"
    by blast
  have "dims (da_map fsqrt p) = []"
    using p(2) c0(1) by (simp add: da_map_def same_axes_def)
  from bcast_scalar [OF this, of fdiv c] obtain q where
    q: "bcast fdiv c (da_map fsqrt p) = Inr q" "same_axes q c"
    "elem q = (\<lambda>i. fdiv (elem c i) (elem (da_map fsqrt p) i))"
    by blast
  have "snd (weighted_corr x x None dim_spec)
          = (if close_to_one (check_of (sizes x) M (\<lambda>d. 0))
                \<and> close_to_one (check_of (sizes x) M' (\<lambda>d. 0))
             then Inr q else Inl NormalizationError)"
  proof (cases "close_to_one (check_of (sizes x) M (\<lambda>d. 0))
                  \<and> close_to_one (check_of (sizes x) M' (\<lambda>d. 0))")
    case True
    then show ?thesis
      by (simp add: snd_weighted_corr g c(2) p(1) q(1))
  next
    case False
    then show ?thesis
      by (auto simp add: snd_weighted_corr g c(2))
  qed
  moreover have "elem q = (\<lambda>i. fdiv (C i) (fsqrt (fmul (C i) (C i))))"
    by (simp add: q(3) p(3) c(1) da_map_def)
  moreover have "dims q = []" "shape q = []"
    using q(2) c0(1,2) by (simp_all add: same_axes_def)
  ultimately show ?thesis by blast
qed

section \<open>The quotient of the correlation\<close>





text \<open>
  An error raised inside a covariance propagates: for \<open>x = [2, 2]\<close> and \<open>y = [inf, inf]\<close>
  the weights resolve, but every deviation of \<open>y\<close> from its mean is \<open>inf - inf\<close>, so the
  covariance masks every weight and its own normalisation check fails.
\<close>

lemma covariance_error_propagates:
  "(\<exists>w ops. get_weights_and_dims two_two (Some inf_inf) None DimNone = Inr (w, ops))
   \<and> snd (weighted_corr two_two inf_inf None DimNone) = Inl NormalizationError"
  by (simp add: operator_defs array_defs)




section \<open>The correlation of an array with itself\<close>

lemma nansum_fin:
  "(\<And>p. p \<in> set P \<Longrightarrow> g p \<noteq> PInf \<and> g p \<noteq> NInf) \<Longrightarrow>
   nansum (map g P) = Fin (\<Sum>p\<leftarrow>P. real_of (g p))"
proof (induction P)
  case Nil
  then show ?case by simp
next
  case (Cons p P)
  then have "nansum (map g P) = Fin (\<Sum>p\<leftarrow>P. real_of (g p))"
    and "g p \<noteq> PInf \<and> g p \<noteq> NInf"
    by simp_all
  then show ?case by (cases "g p") simp_all
qed

lemma member_le_sum_list_real:
  "(\<And>p. p \<in> set P \<Longrightarrow> 0 \<le> g p) \<Longrightarrow> q \<in> set P \<Longrightarrow> (g q :: real) \<le> (\<Sum>p\<leftarrow>P. g p)"
proof (induction P)
  case Nil
  then show ?case by simp
next
  case (Cons p P)
  have nn: "0 \<le> (\<Sum>p\<leftarrow>P. g p)"
    by (rule sum_list_nonneg) (use Cons.prems(1) in auto)
  show ?case
  proof (cases "q = p")
    case True
    with nn show ?thesis by simp
  next
    case False
    with Cons.prems have "q \<in> set P" by simp
    with Cons have "g q \<le> (\<Sum>p\<leftarrow>P. g p)" by simp
    moreover have "0 \<le> g p" using Cons.prems(1) by simp
    ultimately show ?thesis by simp
  qed
qed

lemma sum_list_le_weighted:
  assumes "\<And>p. p \<in> set P \<Longrightarrow> g p \<le> K * m p"
  shows "(\<Sum>p\<leftarrow>P. g p) \<le> (K :: real) * (\<Sum>p\<leftarrow>P. m p)"
proof -
  have "(\<Sum>p\<leftarrow>P. g p) \<le> (\<Sum>p\<leftarrow>P. K * m p)"
    by (rule sum_list_mono) (rule assms)
  then show ?thesis
    by (simp only: sum_list_const_mult)
qed

lemma square_le_bound:
  assumes "\<bar>d\<bar> \<le> (c :: real)"
  shows "d * d \<le> c * c"
proof -
  have "\<bar>d\<bar> * \<bar>d\<bar> \<le> c * c"
    by (rule mult_mono) (use assms in auto)
  then show ?thesis by (simp add: abs_mult_self_eq)
qed

lemma square_ge_bound:
  assumes "(c :: real) \<le> \<bar>d\<bar>" and "0 \<le> c"
  shows "c * c \<le> d * d"
proof -
  have "c * c \<le> \<bar>d\<bar> * \<bar>d\<bar>"
    by (rule mult_mono) (use assms in auto)
  then show ?thesis by (simp add: abs_mult_self_eq)
qed

text \<open>
  The quantities of \<^verbatim>\<open>weighted_cov(x, x)\<close> with uniform weights, for values \<open>f\<close> that are
  missing or numbers of magnitude at most \<open>B\<close>, two of them at least \<open>\<delta>\<close> apart, at no
  more than \<open>N\<close> positions: both normalisation checks see exactly one, and the
  covariance is a number between \<open>\<delta>\<^sup>2 / (4 N)\<close> and \<open>4 B\<^sup>2\<close>.
\<close>

lemma cov_self_value:
  assumes bound: "\<And>i. i \<in> set (positions sz j) \<Longrightarrow> f i = NaN \<or> (\<exists>r. f i = Fin r \<and> \<bar>r\<bar> \<le> B)"
    and p: "p \<in> set (positions sz j)" "f p = Fin a"
    and q: "q \<in> set (positions sz j)" "f q = Fin b"
    and ab: "\<delta> \<le> \<bar>a - b\<bar>" and \<delta>: "0 < \<delta>"
    and N: "real (length (positions sz j)) \<le> N"
    and M: "\<And>i. M i = (if isnan (f i) then NaN else Fin 1)"
  defines "DXY \<equiv> (\<lambda>i. fmul (dev_of sz f M i) (dev_of sz f M i))"
  defines "M' \<equiv> (\<lambda>i. if isnan (DXY i) then NaN else M i)"
  shows "check_of sz M j = Fin 1" and "check_of sz M' j = Fin 1"
    and "\<exists>v. mean_of sz DXY M' j = Fin v \<and> \<delta> * \<delta> / (4 * N) \<le> v \<and> v \<le> 4 * (B * B)"
proof -
  define P where "P = positions sz j"
  define n where "n = (\<Sum>i\<leftarrow>P. real_of (M i))"
  define \<mu> where "\<mu> = (\<Sum>i\<leftarrow>P. real_of (f i)) / n"
  define g where "g = (\<lambda>i. if isnan (f i) then 0 else (real_of (f i) - \<mu>) * (real_of (f i) - \<mu>))"
  define Q where "Q = (\<Sum>i\<leftarrow>P. g i)"
  have pq: "p \<in> set P" "q \<in> set P"
    using p q by (simp_all add: P_def)
  have pos: "positions sz i = P" if "i \<in> set P \<or> i = j" for i
    using that positions_idem [of i sz j] by (auto simp: P_def)
  have val: "f i = NaN \<or> (\<exists>r. f i = Fin r \<and> \<bar>r\<bar> \<le> B)" if "i \<in> set P" for i
    using bound [of i] that by (simp add: P_def)
  have fin: "f i \<noteq> PInf \<and> f i \<noteq> NInf" if "i \<in> set P" for i
    using val [OF that] by auto
  have B: "0 \<le> B"
    using val [OF pq(1)] p(2) by auto
  have Mfin: "M i \<noteq> PInf \<and> M i \<noteq> NInf" for i
    by (simp add: M)
  have m01: "0 \<le> real_of (M i)" "real_of (M i) \<le> 1" for i
    by (simp_all add: M)
  have tot: "total_of sz M i = Fin n" if "i \<in> set P \<or> i = j" for i
    unfolding total_of_def pos [OF that] n_def by (rule nansum_fin) (rule Mfin)
  have "real_of (M p) \<le> n"
    unfolding n_def by (rule member_le_sum_list_real) (use pq in \<open>auto simp: M\<close>)
  then have n1: "1 \<le> n"
    using p by (simp add: M)
  then have n: "0 < n"
    by simp
  have "n \<le> (\<Sum>i\<leftarrow>P. 1)"
    unfolding n_def by (rule sum_list_mono) (rule m01)
  also have "\<dots> = real (length P)"
    by (simp add: sum_list_triv)
  finally have nN: "n \<le> N"
    using N by (simp add: P_def)
  have "check_of sz M j = nansum (map (\<lambda>i. fdiv (M i) (Fin n)) P)"
    unfolding check_of_def pos [of j, simplified]
    by (rule arg_cong [where f = nansum], rule map_cong [OF refl]) (simp add: tot)
  also have "\<dots> = Fin (\<Sum>i\<leftarrow>P. real_of (fdiv (M i) (Fin n)))"
    by (rule nansum_fin) (use n in \<open>simp add: M\<close>)
  also have "(\<Sum>i\<leftarrow>P. real_of (fdiv (M i) (Fin n))) = (\<Sum>i\<leftarrow>P. real_of (M i) * (1 / n))"
    by (rule arg_cong [where f = sum_list], rule map_cong [OF refl]) (use n in \<open>simp add: M\<close>)
  also have "\<dots> = n * (1 / n)"
    by (simp only: sum_list_mult_const n_def)
  also have "\<dots> = 1"
    using n by simp
  finally show c1: "check_of sz M j = Fin 1" .
  have S: "wsum_of sz f M i = Fin (\<Sum>i\<leftarrow>P. real_of (f i))" if "i \<in> set P \<or> i = j" for i
  proof -
    have fm: "fmul (f i) (M i) = f i" if "i \<in> set P" for i
      using val [OF that] by (auto simp: M)
    have "wsum_of sz f M i = Fin (\<Sum>i\<leftarrow>P. real_of (fmul (f i) (M i)))"
      unfolding wsum_of_def pos [OF that]
      by (rule nansum_fin) (simp add: fm fin)
    also have "(\<Sum>i\<leftarrow>P. real_of (fmul (f i) (M i))) = (\<Sum>i\<leftarrow>P. real_of (f i))"
      by (rule arg_cong [where f = sum_list], rule map_cong [OF refl]) (simp add: fm)
    finally show ?thesis .
  qed
  then have mean: "mean_of sz f M i = Fin \<mu>" if "i \<in> set P \<or> i = j" for i
    using that n by (simp add: mean_of_def tot \<mu>_def)
  have up: "real_of (f i) \<le> B * real_of (M i)" and lo: "- real_of (f i) \<le> B * real_of (M i)"
    if "i \<in> set P" for i
    using val [OF that] by (auto simp: M)
  have "(\<Sum>i\<leftarrow>P. real_of (f i)) \<le> B * n"
    unfolding n_def by (rule sum_list_le_weighted) (rule up)
  moreover have "(\<Sum>i\<leftarrow>P. - real_of (f i)) \<le> B * n"
    unfolding n_def by (rule sum_list_le_weighted) (rule lo)
  moreover have "(\<Sum>i\<leftarrow>P. - real_of (f i)) = - (\<Sum>i\<leftarrow>P. real_of (f i))"
    by (induction P) simp_all
  ultimately have "\<bar>\<Sum>i\<leftarrow>P. real_of (f i)\<bar> \<le> B * n"
    by (simp add: abs_le_iff)
  then have \<mu>B: "\<bar>\<mu>\<bar> \<le> B"
    using n by (simp add: \<mu>_def pos_divide_le_eq)
  have dxy: "DXY i = (if isnan (f i) then NaN else Fin (g i))"
    if "i \<in> set P" for i
    using val [OF that] that by (auto simp: DXY_def dev_of_def mean fsub_def g_def)
  have m': "M' i = M i" if "i \<in> set P" for i
    by (simp add: M'_def dxy [OF that] M)
  have tot': "total_of sz M' i = Fin n" if "i \<in> set P \<or> i = j" for i
  proof -
    have "total_of sz M' i = total_of sz M i"
      unfolding total_of_def pos [OF that]
      by (rule arg_cong [where f = nansum], rule map_cong [OF refl]) (rule m')
    then show ?thesis by (simp add: tot [OF that])
  qed
  have "check_of sz M' j = check_of sz M j"
    unfolding check_of_def pos [of j, simplified]
    by (rule arg_cong [where f = nansum], rule map_cong [OF refl]) (simp add: m' tot tot')
  with c1 show "check_of sz M' j = Fin 1" by simp
  have "wsum_of sz DXY M' j = Fin (\<Sum>i\<leftarrow>P. real_of (fmul (DXY i) (M' i)))"
    unfolding wsum_of_def pos [of j, simplified]
    by (rule nansum_fin) (simp add: m' dxy M)
  also have "(\<Sum>i\<leftarrow>P. real_of (fmul (DXY i) (M' i))) = Q"
    unfolding Q_def
    by (rule arg_cong [where f = sum_list], rule map_cong [OF refl]) (simp add: m' dxy M g_def)
  finally have w: "wsum_of sz DXY M' j = Fin Q" .
  have g0: "0 \<le> g i" for i
    by (simp add: g_def)
  have gB: "g i \<le> 4 * (B * B) * real_of (M i)" if "i \<in> set P" for i
  proof (cases "isnan (f i)")
    case True
    then show ?thesis by (simp add: g_def M)
  next
    case False
    with val [OF that] obtain r where r: "f i = Fin r" "\<bar>r\<bar> \<le> B"
      by auto
    with \<mu>B have "\<bar>r - \<mu>\<bar> \<le> 2 * B"
      by simp
    then have "(r - \<mu>) * (r - \<mu>) \<le> (2 * B) * (2 * B)"
      by (rule square_le_bound)
    with r show ?thesis by (simp add: g_def M)
  qed
  have "Q \<le> 4 * (B * B) * n"
    unfolding Q_def n_def by (rule sum_list_le_weighted) (rule gB)
  then have vB: "Q / n \<le> 4 * (B * B)"
    using n by (simp add: pos_divide_le_eq)
  have le: "g i \<le> Q" if "i \<in> set P" for i
    unfolding Q_def by (rule member_le_sum_list_real) (use that g0 in auto)
  have far: "\<delta> / 2 \<le> \<bar>a - \<mu>\<bar> \<or> \<delta> / 2 \<le> \<bar>b - \<mu>\<bar>"
    using ab by linarith
  have "\<delta> / 2 * (\<delta> / 2) \<le> Q"
  proof (cases "\<delta> / 2 \<le> \<bar>a - \<mu>\<bar>")
    case True
    then have "\<delta> / 2 * (\<delta> / 2) \<le> (a - \<mu>) * (a - \<mu>)"
      by (rule square_ge_bound) (use \<delta> in simp)
    with le [OF pq(1)] p(2) show ?thesis by (simp add: g_def)
  next
    case False
    with far have "\<delta> / 2 \<le> \<bar>b - \<mu>\<bar>" by simp
    then have "\<delta> / 2 * (\<delta> / 2) \<le> (b - \<mu>) * (b - \<mu>)"
      by (rule square_ge_bound) (use \<delta> in simp)
    with le [OF pq(2)] q(2) show ?thesis by (simp add: g_def)
  qed
  then have Qlo: "\<delta> * \<delta> / 4 \<le> Q"
    by simp
  have "0 \<le> \<delta> * \<delta> / 4"
    using \<delta> by simp
  have N0: "0 < N"
    using n nN by simp
  have "\<delta> * \<delta> / (4 * N) = (\<delta> * \<delta> / 4) / N"
    by simp
  also have "\<dots> \<le> (\<delta> * \<delta> / 4) / n"
    by (rule divide_left_mono) (use n nN N0 \<delta> in auto)
  also have "\<dots> \<le> Q / n"
    by (rule divide_right_mono) (use Qlo n in auto)
  finally have vlo: "\<delta> * \<delta> / (4 * N) \<le> Q / n" .
  have "mean_of sz DXY M' j = Fin (Q / n)"
    using n by (simp add: mean_of_def w tot')
  with vlo vB show "\<exists>v. mean_of sz DXY M' j = Fin v \<and> \<delta> * \<delta> / (4 * N) \<le> v \<and> v \<le> 4 * (B * B)"
    by blast
qed

text \<open>
  Claim C9, amended. Let \<open>x\<close> be a well-formed array of at most \<open>10 ^ 9\<close> elements, reduced
  over all of its axes in the order the array has them, whose elements are missing or
  numbers of magnitude at most \<open>10 ^ 60\<close> (none is infinite), two of them at least
  \<open>1 / 10 ^ 60\<close> apart. Then \<^verbatim>\<open>weighted_corr(x, x)\<close> with default weights returns the
  scalar \<open>1.0\<close>. The covariance of \<open>x\<close> with itself, which the result divides by the
  square root of its square, is a number between \<open>1 / (4 * 10 ^ 129)\<close> and
  \<open>4 * 10 ^ 120\<close>, so that neither it nor its square leaves the range of doubles. Values
  are exact reals here, so the result is exactly one.
\<close>

theorem corr_with_itself:
  assumes wf: "well_formed x" and r: "resolve_dims x dim_spec = Inr (dims x)"
    and count: "length (positions (sizes x) (\<lambda>d. 0)) \<le> 10 ^ 9"
    and bound: "\<And>i. i \<in> set (positions (sizes x) (\<lambda>d. 0)) \<Longrightarrow>
                  elem x i = NaN \<or> (\<exists>r. elem x i = Fin r \<and> \<bar>r\<bar> \<le> 10 ^ 60)"
    and p: "p \<in> set (positions (sizes x) (\<lambda>d. 0))" "elem x p = Fin a"
    and q: "q \<in> set (positions (sizes x) (\<lambda>d. 0))" "elem x q = Fin b"
    and ab: "1 / 10 ^ 60 \<le> \<bar>a - b\<bar>"
  shows "\<exists>c cv v. snd (weighted_corr x x None dim_spec) = Inr c \<and> dims c = [] \<and> shape c = []
           \<and> element_at c [] = Fin 1
           \<and> snd (weighted_cov x x None dim_spec) = Inr cv \<and> element_at cv [] = Fin v
           \<and> 1 / (4 * 10 ^ 129) \<le> v \<and> v \<le> 4 * 10 ^ 120"
proof -
  define M where "M = masked_fn x (Some x) (ones_like x)"
  define DXY where
    "DXY = (\<lambda>i. fmul (dev_of (sizes x) (elem x) M i) (dev_of (sizes x) (elem x) M i))"
  define M' where "M' = (\<lambda>i. if isnan (DXY i) then NaN else M i)"
  define C where "C = mean_of (sizes x) DXY M'"
  have Mi: "M i = (if isnan (elem x i) then NaN else Fin 1)" for i
    by (simp add: M_def masked_fn_def ones_like_def)
  have N: "real (length (positions (sizes x) (\<lambda>d. 0))) \<le> 10 ^ 9"
    using count by (metis of_nat_le_iff of_nat_numeral of_nat_power)
  have \<delta>: "(0 :: real) < 1 / 10 ^ 60"
    by simp
  have k: "check_of (sizes x) M (\<lambda>d. 0) = Fin 1" "check_of (sizes x) M' (\<lambda>d. 0) = Fin 1"
    "\<exists>v. C (\<lambda>d. 0) = Fin v \<and> 1 / 10 ^ 60 * (1 / 10 ^ 60) / (4 * 10 ^ 9) \<le> v
           \<and> v \<le> 4 * (10 ^ 60 * 10 ^ 60)"
    unfolding C_def M'_def DXY_def
    by (rule cov_self_value [OF bound p q ab \<delta> N Mi], assumption)+
  from k(3) obtain v where v: "C (\<lambda>d. 0) = Fin v" "1 / (4 * 10 ^ 129) \<le> v" "v \<le> 4 * 10 ^ 120"
    by auto
  then have v0: "0 < v"
    by simp
  have "\<exists>c. dims c = [] \<and> shape c = []
           \<and> elem c = (\<lambda>i. fdiv (C i) (fsqrt (fmul (C i) (C i))))
           \<and> snd (weighted_corr x x None dim_spec)
               = (if close_to_one (check_of (sizes x) M (\<lambda>d. 0))
                     \<and> close_to_one (check_of (sizes x) M' (\<lambda>d. 0))
                  then Inr c else Inl NormalizationError)"
    unfolding C_def M'_def DXY_def M_def by (rule weighted_corr_self_all [OF wf r])
  then obtain c where c: "dims c = []" "shape c = []"
    "elem c = (\<lambda>i. fdiv (C i) (fsqrt (fmul (C i) (C i))))"
    "snd (weighted_corr x x None dim_spec) = Inr c"
    by (auto simp: k)
  have c1: "element_at c [] = Fin 1"
    using v0 by (simp add: element_at_scalar c(3) v(1))
  have "\<exists>cv. dims cv = [] \<and> shape cv = [] \<and> elem cv = C
           \<and> snd (weighted_cov x x (Some (ones_like x)) dim_spec)
               = (if close_to_one (check_of (sizes x) M (\<lambda>d. 0))
                     \<and> close_to_one (check_of (sizes x) M' (\<lambda>d. 0))
                  then Inr cv else Inl NormalizationError)"
    unfolding C_def M'_def DXY_def M_def
    by (rule weighted_cov_all [OF wf same_axes_refl same_axes_ones_like r])
  then obtain cv where cv: "elem cv = C"
    "snd (weighted_cov x x (Some (ones_like x)) dim_spec) = Inr cv"
    by (auto simp: k)
  have "snd (weighted_cov x x None dim_spec) = Inr cv"
    by (simp add: snd_weighted_cov default_weights_all [OF wf r] cv(2) [unfolded snd_weighted_cov])
  moreover have "element_at cv [] = Fin v"
    by (simp add: element_at_scalar cv(1) v(1))
  ultimately show ?thesis
    using c c1 v(2,3) by blast
qed

theorem corr_with_itself_witness:
  "\<exists>c cv v. snd (weighted_corr one_two_three one_two_three None DimNone) = Inr c \<and> dims c = []
       \<and> shape c = [] \<and> element_at c [] = Fin 1
       \<and> snd (weighted_cov one_two_three one_two_three None DimNone) = Inr cv
       \<and> element_at cv [] = Fin v \<and> 1 / (4 * 10 ^ 129) \<le> v \<and> v \<le> 4 * 10 ^ 120"
proof -
  have s: "sizes one_two_three = [(''a'', 3)]"
    by (simp add: array_defs sizes_def)
  show ?thesis
  proof (rule corr_with_itself [where p = "(\<lambda>d. 0)(''a'' := 0)" and a = 1
        and q = "(\<lambda>d. 0)(''a'' := 1)" and b = 2])
    show "well_formed one_two_three"
      by (simp add: well_formed_def array_defs)
    show "resolve_dims one_two_three DimNone = Inr (dims one_two_three)"
      by (simp add: resolve_dims_def array_defs)
    show "length (positions (sizes one_two_three) (\<lambda>d. 0)) \<le> 10 ^ 9"
      unfolding s by simp
    show "elem one_two_three i = NaN
            \<or> (\<exists>r. elem one_two_three i = Fin r \<and> \<bar>r\<bar> \<le> 10 ^ 60)"
      if "i \<in> set (positions (sizes one_two_three) (\<lambda>d. 0))" for i
      using that unfolding s by (auto simp: array_defs)
    show "(\<lambda>d. 0)(''a'' := 0) \<in> set (positions (sizes one_two_three) (\<lambda>d. 0))"
      by (simp add: s)
    show "(\<lambda>d. 0)(''a'' := 1) \<in> set (positions (sizes one_two_three) (\<lambda>d. 0))"
      by (simp add: s)
    show "elem one_two_three ((\<lambda>d. 0)(''a'' := 0)) = Fin 1"
      by (simp add: array_defs)
    show "elem one_two_three ((\<lambda>d. 0)(''a'' := 1)) = Fin 2"
      by (simp add: array_defs)
    show "1 / 10 ^ 60 \<le> \<bar>(1 :: real) - 2\<bar>"
      by simp
  qed
qed

text \<open>
  Claim C9 as stated fails for an array that holds an infinity: \<open>[1, 2, inf]\<close> has the two
  distinct valid values 1 and 2 (an infinity is not missing either), its mean is \<open>inf\<close>,
  its covariance with itself is \<open>inf\<close>, and \<open>inf / sqrt (inf * inf)\<close> is NaN.
\<close>

theorem corr_with_itself_counterexample:
  "map (\<lambda>k. isnan (element_at one_two_inf [k])) [0, 1, 2] = [False, False, False]
   \<and> element_at one_two_inf [0] = Fin 1 \<and> element_at one_two_inf [1] = Fin 2
   \<and> map_sum id (\<lambda>c. (dims c, shape c, element_at c []))
        (snd (weighted_corr one_two_inf one_two_inf None DimNone)) = Inr ([], [], NaN)"
  by (simp add: operator_defs array_defs)

end
